theory Spec2Isabelle
  imports Complex_Main
begin

section \<open>Number model\<close>

text \<open>
  The program computes with float64. Here a float64 is a real number: arithmetic is exact,
  without rounding or overflow. There is no infinity and no NaN among the reals: where Go
  divides by zero or takes the square root of a negative number, the model has some real
  number in place of Go's infinity or NaN (in HOL \<open>x / 0 = 0\<close>). The one NaN that the
  program itself tests for, in \<open>CheckCollision\<close>, is modelled by an explicit branch.
  Every statement below about the values of a collision is evaluated at particles with
  distinct positions, non-zero relative velocities and non-zero Lorentz factors, where no
  such operation occurs; the statements about \<open>Update\<close> concern one such input, the stored
  velocity, and the Lorentz factor at relative speed zero, which involve none either for
  \<open>c > 0\<close>.
  Rounding also makes math.Tanh exactly 1 for arguments from about 19 on, where the real
  \<open>tanh\<close> is still below 1; the one bound stated on a speed keeps away from there.
  Points in time (time.Time) and durations (time.Duration) are integers (nanoseconds),
  not bounded as int64 is.
\<close>

section \<open>Vectors (vector.go)\<close>

record Vector =
  X :: real
  Y :: real

definition Add :: "Vector \<Rightarrow> Vector \<Rightarrow> Vector" where
  "Add v w = \<lparr>X = X v + X w, Y = Y v + Y w\<rparr>"

definition Sub :: "Vector \<Rightarrow> Vector \<Rightarrow> Vector" where
  "Sub v w = \<lparr>X = X v - X w, Y = Y v - Y w\<rparr>"

definition Neg :: "Vector \<Rightarrow> Vector" where
  "Neg v = \<lparr>X = - X v, Y = - Y v\<rparr>"

definition Dot :: "Vector \<Rightarrow> Vector \<Rightarrow> real" where
  "Dot v w = X v * X w + Y v * Y w"

definition Scl :: "Vector \<Rightarrow> real \<Rightarrow> Vector" where
  "Scl v s = \<lparr>X = X v * s, Y = Y v * s\<rparr>"

definition Mag :: "Vector \<Rightarrow> real" where
  "Mag v = sqrt (X v * X v + Y v * Y v)"

definition SqrMag :: "Vector \<Rightarrow> real" where
  "SqrMag v = X v * X v + Y v * Y v"

text \<open>
  \<open>Unit\<close> is \<open>v.Scl(1 / v.Mag())\<close>, with no guard. On the zero vector Go computes
  \<open>0 * +Inf\<close>, a NaN in both components; \<open>Unit_NaN\<close> says when that happens. In the
  model \<open>Unit\<close> of the zero vector is the zero vector.
\<close>

definition Unit :: "Vector \<Rightarrow> Vector" where
  "Unit v = Scl v (1 / Mag v)"

definition Unit_NaN :: "Vector \<Rightarrow> bool" where
  "Unit_NaN v \<longleftrightarrow> Mag v = 0"

text \<open>
  math.Atan2(y, x) of the Go library: the angle of the point \<open>(x, y)\<close> in \<open>(-pi, pi]\<close>,
  with \<open>Atan2(0, 0) = 0\<close>.
\<close>

definition Atan2 :: "real \<Rightarrow> real \<Rightarrow> real" where
  "Atan2 y x =
     (if 0 < x then arctan (y / x)
      else if x < 0 \<and> 0 \<le> y then arctan (y / x) + pi
      else if x < 0 \<and> y < 0 then arctan (y / x) - pi
      else if 0 < y then pi / 2
      else if y < 0 then - (pi / 2)
      else 0)"

definition Angle :: "Vector \<Rightarrow> real" where
  "Angle v = Atan2 (Y v) (X v)"

definition SetMag :: "Vector \<Rightarrow> real \<Rightarrow> Vector" where
  "SetMag v s = (if Mag v = 0 then v else Scl v (s / Mag v))"

section \<open>Particles (particle.go, utils.go, game.go)\<close>

text \<open>
  The field \<open>Gamma\<close> of the Go struct is \<open>gamma\<close> here, since the package-level function
  of utils.go is \<open>Gamma\<close> as well.
\<close>

record Particle =
  Pos :: Vector
  Rap :: Vector
  Vel :: Vector
  Acc :: Vector
  AngPos :: real
  AngVel :: real
  Mass :: real
  Radius :: real
  gamma :: real
  Clock :: real

definition physScale :: real where
  "physScale = 3 / 10"

definition Gamma :: "real \<Rightarrow> real \<Rightarrow> real" where
  "Gamma v c = 1 / sqrt (1 - (v * v) / (c * c))"

text \<open>
  \<open>Particle.Update\<close>. The velocity and the position are computed from \<open>p.Rap\<close> and
  \<open>p.Acc\<close> before the assignments at the end of the body, so from the old rapidity and
  the old acceleration; the local \<open>rap\<close> is only stored.
\<close>

definition Update :: "Particle \<Rightarrow> Vector \<Rightarrow> Vector \<Rightarrow> real \<Rightarrow> real \<Rightarrow> Particle" where
  "Update p force frame c dt =
     (let relativeVelocity = Sub (Vel p) frame;
          g = Gamma (Mag relativeVelocity) c;
          dtr = dt * g;
          acc = Scl force (1 / Mass p);
          rap = Add (Rap p) (Scl (Add (Acc p) acc) (dtr / 2));
          vel = SetMag (Rap p) (c * tanh (Mag (Rap p) / c));
          pos = Add (Add (Pos p) (Scl (Rap p) dtr)) (Scl (Acc p) (dtr * dtr / 2))
      in p\<lparr>gamma := g, Clock := Clock p + dtr, AngPos := AngPos p + AngVel p * dtr,
            Acc := acc, Rap := rap, Vel := vel, Pos := pos\<rparr>)"

definition ScaledRadius :: "Particle \<Rightarrow> real" where
  "ScaledRadius p = Radius p * physScale"

text \<open>
  The radius of \<open>p\<close> along the collision axis as \<open>CheckCollision\<close> computes it, before
  the NaN test: \<open>contracted p axis frame\<close>. With finite fields and a non-zero \<open>gamma\<close> the
  product is NaN exactly when one of the two \<open>Unit\<close> calls is: \<open>radius_NaN\<close>.
\<close>

definition contracted :: "Particle \<Rightarrow> Vector \<Rightarrow> Vector \<Rightarrow> real" where
  "contracted p axis frame =
     ScaledRadius p * (1 - Dot (Unit (Sub (Vel p) frame)) axis * (1 - 1 / gamma p))"

definition radius_NaN :: "Particle \<Rightarrow> Vector \<Rightarrow> Vector \<Rightarrow> bool" where
  "radius_NaN p d frame \<longleftrightarrow> Unit_NaN d \<or> Unit_NaN (Sub (Vel p) frame)"

definition CheckCollision :: "Particle \<Rightarrow> Particle \<Rightarrow> Vector \<Rightarrow> bool" where
  "CheckCollision p q frame =
     (let axis = Unit (Sub (Pos p) (Pos q));
          pRadius = contracted p axis frame;
          qRadius = contracted q axis frame;
          pRadius = (if radius_NaN p (Sub (Pos p) (Pos q)) frame then ScaledRadius p else pRadius);
          qRadius = (if radius_NaN q (Sub (Pos p) (Pos q)) frame then ScaledRadius q else qRadius);
          distance = Mag (Sub (Pos p) (Pos q))
      in distance < pRadius + qRadius)"

definition Momentum :: "Particle \<Rightarrow> Vector" where
  "Momentum p = Scl (Vel p) (Mass p * gamma p)"

definition MassRel :: "Particle \<Rightarrow> real" where
  "MassRel p = Mass p * gamma p"

fun UpdatePositions :: "Particle list \<Rightarrow> Vector \<Rightarrow> real \<Rightarrow> real \<Rightarrow> Particle list" where
  "UpdatePositions [] frame c dt = []"
| "UpdatePositions (particle # particles) frame c dt =
     Update particle \<lparr>X = 0, Y = 0\<rparr> frame c dt # UpdatePositions particles frame c dt"

text \<open>
  The body of the \<open>if\<close> of \<open>SolveCollisions\<close> for the pair \<open>(pI, pJ)\<close> =
  \<open>(particles[i], particles[j])\<close>: the two particles after the bounce.
\<close>

definition bounce :: "Particle \<Rightarrow> Particle \<Rightarrow> real \<Rightarrow> Particle \<times> Particle" where
  "bounce pI pJ c =
     (let distance = Mag (Sub (Pos pI) (Pos pJ));
          axis = Unit (Sub (Pos pI) (Pos pJ));
          stepSize = ScaledRadius pI + ScaledRadius pJ - distance;
          posi = Add (Pos pI) (Scl axis (0.5 * stepSize));
          posj = Sub (Pos pJ) (Scl axis (0.5 * stepSize));
          momentum = Add (Momentum pI) (Momentum pJ);
          CoM = Scl momentum (1 / (MassRel pI + MassRel pJ));
          iVCoM = Scl (Sub (Vel pI) CoM) (1 / (1 - Dot (Vel pI) CoM / (c * c)));
          jVCoM = Scl (Sub (Vel pJ) CoM) (1 / (1 - Dot (Vel pJ) CoM / (c * c)));
          iv = Scl (Add (Neg iVCoM) CoM) (1 / (1 - Dot iVCoM CoM / (c * c)));
          jv = Scl (Add (Neg jVCoM) CoM) (1 / (1 - Dot jVCoM CoM / (c * c)))
      in (pI\<lparr>Pos := posi, Rap := SetMag iv (c * tanh (Mag iv / c)), Vel := iv\<rparr>,
          pJ\<lparr>Pos := posj, Rap := SetMag jv (c * tanh (Mag jv / c)), Vel := jv\<rparr>))"

text \<open>
  The two nested loops of \<open>SolveCollisions\<close> visit the index pairs \<open>i < j\<close> in the order
  of \<open>pairs\<close>; the slice holds pointers to distinct particles, so the bounce of a pair
  replaces the two entries.
\<close>

definition pairs :: "nat \<Rightarrow> (nat \<times> nat) list" where
  "pairs n = concat (map (\<lambda>i. map (\<lambda>j. (i, j)) [Suc i..<n]) [0..<n - 1])"

definition solve_pair :: "Vector \<Rightarrow> real \<Rightarrow> nat \<times> nat \<Rightarrow> Particle list \<Rightarrow> Particle list" where
  "solve_pair frame c ij particles =
     (let i = fst ij; j = snd ij in
      if CheckCollision (particles ! i) (particles ! j) frame
      then (let r = bounce (particles ! i) (particles ! j) c
            in (particles[i := fst r])[j := snd r])
      else particles)"

definition SolveCollisions :: "Particle list \<Rightarrow> Vector \<Rightarrow> real \<Rightarrow> Particle list" where
  "SolveCollisions particles frame c =
     fold (solve_pair frame c) (pairs (length particles)) particles"

section \<open>Pools (pool.go)\<close>

text \<open>
  A slot of \<open>particles\<close> is a pointer: \<open>None\<close> is nil. Every particle a pool points to is
  allocated by \<open>Activate\<close> or \<open>appendNew\<close> for one slot, so a slot is modelled as holding
  its particle by value. The sprite sheet and the draw scale are only read by \<open>Draw\<close> and
  are left out. An index expression outside the slice and a method call through a nil
  pointer stop the program (a Go panic): \<open>Inl\<close> of an \<open>error\<close>. An index is a natural
  number; a negative Go index panics like one past the end.
\<close>

datatype error = IndexOutOfRange | NilDereference

record Pool =
  particles :: "Particle option list"
  active :: "bool list"
  lifetimes :: "int list"
  sprites :: "int list"
  maxLifetime :: int
  enforceLifetime :: bool
  fadeOverLifetime :: bool
  disableCollision :: bool

text \<open>The zero value of time.Time, the origin of the time axis.\<close>

definition zeroTime :: int where
  "zeroTime = 0"

definition NewPool :: "nat \<Rightarrow> Pool" where
  "NewPool n =
     \<lparr>particles = replicate n None, active = replicate n False,
      lifetimes = replicate n zeroTime, sprites = replicate n 0,
      maxLifetime = 0, enforceLifetime = False, fadeOverLifetime = False,
      disableCollision = False\<rparr>"

definition DisableCollision :: "Pool \<Rightarrow> Pool" where
  "DisableCollision p = p\<lparr>disableCollision := True\<rparr>"

definition EnforceLifetime :: "Pool \<Rightarrow> int \<Rightarrow> Pool" where
  "EnforceLifetime p lifetime = p\<lparr>enforceLifetime := True, maxLifetime := lifetime\<rparr>"

definition FadeOverLifetime :: "Pool \<Rightarrow> Pool" where
  "FadeOverLifetime p = p\<lparr>fadeOverLifetime := True\<rparr>"

text \<open>
  The composite literal \<open>&Particle{...}\<close> that \<open>Activate\<close> and \<open>appendNew\<close> both build.
\<close>

definition newParticle :: "Vector \<Rightarrow> Vector \<Rightarrow> real \<Rightarrow> real \<Rightarrow> real \<Rightarrow> real \<Rightarrow> Particle" where
  "newParticle pos rap angPos angVel mass radius =
     \<lparr>Pos = pos, Rap = rap, Vel = \<lparr>X = 0, Y = 0\<rparr>, Acc = \<lparr>X = 0, Y = 0\<rparr>,
      AngPos = angPos, AngVel = angVel, Mass = mass, Radius = radius,
      gamma = 1, Clock = 0\<rparr>"

text \<open>\<open>now\<close> is the value that time.Now() returns in the call.\<close>

definition appendNew ::
  "Pool \<Rightarrow> int \<Rightarrow> Vector \<Rightarrow> Vector \<Rightarrow> real \<Rightarrow> real \<Rightarrow> real \<Rightarrow> real \<Rightarrow> int \<Rightarrow> Pool" where
  "appendNew p now pos rap angPos angVel mass radius sprite =
     p\<lparr>active := active p @ [True],
       lifetimes := lifetimes p @ [now],
       sprites := sprites p @ [sprite],
       particles := particles p @ [Some (newParticle pos rap angPos angVel mass radius)]\<rparr>"

text \<open>
  The search loop of \<open>Activate\<close> over the indices still to visit; when they run out,
  \<open>appendNew\<close>.
\<close>

fun Activate_loop ::
  "nat list \<Rightarrow> Pool \<Rightarrow> int \<Rightarrow> Vector \<Rightarrow> Vector \<Rightarrow> real \<Rightarrow> real \<Rightarrow> real \<Rightarrow> real \<Rightarrow> int
     \<Rightarrow> error + Pool" where
  "Activate_loop [] p now pos rap angPos angVel mass radius sprite =
     Inr (appendNew p now pos rap angPos angVel mass radius sprite)"
| "Activate_loop (i # is) p now pos rap angPos angVel mass radius sprite =
     (if length (active p) \<le> i then Inl IndexOutOfRange
      else if \<not> active p ! i then
        (if length (lifetimes p) \<le> i \<or> length (sprites p) \<le> i then Inl IndexOutOfRange
         else Inr (p\<lparr>active := (active p)[i := True],
                     lifetimes := (lifetimes p)[i := now],
                     sprites := (sprites p)[i := sprite],
                     particles :=
                       (particles p)[i := Some (newParticle pos rap angPos angVel mass radius)]\<rparr>))
      else Activate_loop is p now pos rap angPos angVel mass radius sprite)"

definition Activate ::
  "Pool \<Rightarrow> int \<Rightarrow> Vector \<Rightarrow> Vector \<Rightarrow> real \<Rightarrow> real \<Rightarrow> real \<Rightarrow> real \<Rightarrow> int \<Rightarrow> error + Pool" where
  "Activate p now pos rap angPos angVel mass radius sprite =
     Activate_loop [0..<length (particles p)] p now pos rap angPos angVel mass radius sprite"

definition Deactivate :: "Pool \<Rightarrow> nat \<Rightarrow> error + (Pool \<times> bool)" where
  "Deactivate p i =
     (if length (active p) \<le> i then Inl IndexOutOfRange
      else if active p ! i then
        (if length (particles p) \<le> i then Inl IndexOutOfRange
         else Inr (p\<lparr>active := (active p)[i := False], particles := (particles p)[i := None]\<rparr>,
                   True))
      else Inr (p, False))"

text \<open>
  time.Since(t) when the clock reads \<open>now\<close>. The selection loop of \<open>Update\<close> and
  \<open>UpdateWith\<close> reads the clock once for each slot it tests: \<open>now i\<close> is the reading at
  index \<open>i\<close>. The loop collects the pointers \<open>p.particles[i]\<close>; the model collects the
  indices \<open>i\<close> and reads the slots afterwards.
\<close>

definition Since :: "int \<Rightarrow> int \<Rightarrow> int" where
  "Since now t = now - t"

fun selectActive ::
  "(nat \<Rightarrow> int) \<Rightarrow> nat list \<Rightarrow> Pool \<Rightarrow> nat list \<Rightarrow> error + (Pool \<times> nat list)" where
  "selectActive now [] p activeParticles = Inr (p, activeParticles)"
| "selectActive now (i # is) p activeParticles =
     (if length (active p) \<le> i then Inl IndexOutOfRange
      else if enforceLifetime p \<and> active p ! i \<and> length (lifetimes p) \<le> i
        then Inl IndexOutOfRange
      else if enforceLifetime p \<and> active p ! i \<and> Since (now i) (lifetimes p ! i) > maxLifetime p
        then (case Deactivate p i of
                Inl e \<Rightarrow> Inl e
              | Inr r \<Rightarrow> selectActive now is (fst r) activeParticles)
      else if active p ! i then selectActive now is p (activeParticles @ [i])
      else selectActive now is p activeParticles)"

text \<open>
  The particles behind the collected pointers, and the slots after the particles were
  changed through the pointers.
\<close>

definition deref :: "Pool \<Rightarrow> nat list \<Rightarrow> Particle option list" where
  "deref p idxs = map (\<lambda>i. particles p ! i) idxs"

definition writeBack :: "Pool \<Rightarrow> nat list \<Rightarrow> Particle list \<Rightarrow> Pool" where
  "writeBack p idxs ps =
     p\<lparr>particles := fold (\<lambda>iq xs. xs[fst iq := Some (snd iq)]) (zip idxs ps) (particles p)\<rparr>"

text \<open>
  \<open>UpdatePositions\<close> calls \<open>Update\<close> through every pointer of the slice, and
  \<open>SolveCollisions\<close> reads every pointer of a slice of two or more: a nil among them is
  a panic.
\<close>

definition Pool_Update :: "Pool \<Rightarrow> (nat \<Rightarrow> int) \<Rightarrow> Vector \<Rightarrow> real \<Rightarrow> real \<Rightarrow> error + Pool" where
  "Pool_Update p now frame c dt =
     (case selectActive now [0..<length (particles p)] p [] of
        Inl e \<Rightarrow> Inl e
      | Inr r \<Rightarrow>
          (let p1 = fst r; idxs = snd r in
           if None \<in> set (deref p1 idxs) then Inl NilDereference
           else
             (let activeParticles = map the (deref p1 idxs);
                  activeParticles = UpdatePositions activeParticles frame c dt;
                  activeParticles =
                    (if \<not> disableCollision p1 then SolveCollisions activeParticles frame c
                     else activeParticles)
              in Inr (writeBack p1 idxs activeParticles))))"

text \<open>
  \<open>UpdateWith\<close>: the caller's particles (pointers, distinct from the pool's) join the
  slice after the position update; the result is the pool and the caller's particles.
\<close>

definition Pool_UpdateWith ::
  "Pool \<Rightarrow> (nat \<Rightarrow> int) \<Rightarrow> Vector \<Rightarrow> real \<Rightarrow> real \<Rightarrow> Particle option list
     \<Rightarrow> error + (Pool \<times> Particle option list)" where
  "Pool_UpdateWith p now frame c dt external =
     (case selectActive now [0..<length (particles p)] p [] of
        Inl e \<Rightarrow> Inl e
      | Inr r \<Rightarrow>
          (let p1 = fst r; idxs = snd r in
           if None \<in> set (deref p1 idxs) then Inl NilDereference
           else
             (let activeParticles = map the (deref p1 idxs);
                  activeParticles = UpdatePositions activeParticles frame c dt
              in if disableCollision p1
                 then Inr (writeBack p1 idxs activeParticles, external)
                 else if 2 \<le> length activeParticles + length external \<and> None \<in> set external
                 then Inl NilDereference
                 else
                   (let solved = SolveCollisions (activeParticles @ map the external) frame c
                    in Inr (writeBack p1 idxs (take (length idxs) solved),
                            map Some (drop (length idxs) solved))))))"

fun Reset_loop :: "nat list \<Rightarrow> Pool \<Rightarrow> error + Pool" where
  "Reset_loop [] p = Inr p"
| "Reset_loop (i # is) p =
     (if length (active p) \<le> i then Inl IndexOutOfRange
      else if active p ! i then
        (if length (particles p) \<le> i \<or> length (lifetimes p) \<le> i \<or> length (sprites p) \<le> i
         then Inl IndexOutOfRange
         else Reset_loop is
                (p\<lparr>particles := (particles p)[i := None],
                   active := (active p)[i := False],
                   lifetimes := (lifetimes p)[i := zeroTime],
                   sprites := (sprites p)[i := 0]\<rparr>))
      else Reset_loop is p)"

definition Reset :: "Pool \<Rightarrow> error + Pool" where
  "Reset p = Reset_loop [0..<length (particles p)] p"

text \<open>
  The structural invariant of a pool: the four slices have one length, and an active slot
  holds a particle.
\<close>

definition pool_inv :: "Pool \<Rightarrow> bool" where
  "pool_inv p \<longleftrightarrow>
     length (active p) = length (particles p) \<and>
     length (lifetimes p) = length (particles p) \<and>
     length (sprites p) = length (particles p) \<and>
     (\<forall>i < length (particles p). active p ! i \<longrightarrow> particles p ! i \<noteq> None)"

text \<open>
  The calls a client makes on a pool, and a sequence of them run from a starting pool. A
  panic ends the run.
\<close>

datatype pool_op =
    OpActivate int Vector Vector real real real real int
  | OpDeactivate nat
  | OpUpdate "nat \<Rightarrow> int" Vector real real
  | OpUpdateWith "nat \<Rightarrow> int" Vector real real "Particle option list"
  | OpReset
  | OpDisableCollision
  | OpEnforceLifetime int
  | OpFadeOverLifetime

fun apply_op :: "pool_op \<Rightarrow> Pool \<Rightarrow> error + Pool" where
  "apply_op (OpActivate now pos rap angPos angVel mass radius sprite) p =
     Activate p now pos rap angPos angVel mass radius sprite"
| "apply_op (OpDeactivate i) p = map_sum id fst (Deactivate p i)"
| "apply_op (OpUpdate now frame c dt) p = Pool_Update p now frame c dt"
| "apply_op (OpUpdateWith now frame c dt external) p =
     map_sum id fst (Pool_UpdateWith p now frame c dt external)"
| "apply_op OpReset p = Reset p"
| "apply_op OpDisableCollision p = Inr (DisableCollision p)"
| "apply_op (OpEnforceLifetime lifetime) p = Inr (EnforceLifetime p lifetime)"
| "apply_op OpFadeOverLifetime p = Inr (FadeOverLifetime p)"

fun run :: "pool_op list \<Rightarrow> Pool \<Rightarrow> error + Pool" where
  "run [] p = Inr p"
| "run (x # xs) p = (case apply_op x p of Inl e \<Rightarrow> Inl e | Inr p' \<Rightarrow> run xs p')"

section \<open>Auxiliary notions for the statements\<close>

text \<open>
  The test of the selection loop on slot \<open>i\<close>, the indices the loop collects (active and
  not expired, in slot order), the fields the loop and the physics leave alone, and the
  two passes that \<open>Update\<close> runs on the collected particles.
\<close>

definition expired :: "Pool \<Rightarrow> (nat \<Rightarrow> int) \<Rightarrow> nat \<Rightarrow> bool" where
  "expired p now i \<longleftrightarrow>
     enforceLifetime p \<and> active p ! i \<and> Since (now i) (lifetimes p ! i) > maxLifetime p"

definition selected :: "Pool \<Rightarrow> (nat \<Rightarrow> int) \<Rightarrow> nat list" where
  "selected p now =
     filter (\<lambda>i. active p ! i \<and> \<not> expired p now i) [0..<length (particles p)]"

definition same_config :: "Pool \<Rightarrow> Pool \<Rightarrow> bool" where
  "same_config p' p \<longleftrightarrow>
     lifetimes p' = lifetimes p \<and> sprites p' = sprites p \<and>
     maxLifetime p' = maxLifetime p \<and> enforceLifetime p' = enforceLifetime p \<and>
     fadeOverLifetime p' = fadeOverLifetime p \<and> disableCollision p' = disableCollision p"

definition physics :: "Pool \<Rightarrow> Vector \<Rightarrow> real \<Rightarrow> real \<Rightarrow> Particle list \<Rightarrow> Particle list" where
  "physics p frame c dt ps =
     (if disableCollision p then UpdatePositions ps frame c dt
      else SolveCollisions (UpdatePositions ps frame c dt) frame c)"

text \<open>
  The slice that \<open>UpdateWith\<close> ends with: the moved particles of the pool followed by
  the caller's, after the collision pass if the pool has one.
\<close>

definition with_external ::
  "Pool \<Rightarrow> Vector \<Rightarrow> real \<Rightarrow> real \<Rightarrow> Particle list \<Rightarrow> Particle list \<Rightarrow> Particle list" where
  "with_external p frame c dt ps external =
     (if disableCollision p then UpdatePositions ps frame c dt @ external
      else SolveCollisions (UpdatePositions ps frame c dt @ external) frame c)"

section \<open>Concrete particles\<close>

text \<open>
  A particle as \<open>Activate\<close> builds it (unit mass), then given a velocity and a Lorentz
  factor, as an \<open>Update\<close> leaves them.
\<close>

definition moving :: "Vector \<Rightarrow> Vector \<Rightarrow> real \<Rightarrow> real \<Rightarrow> Particle" where
  "moving pos vel radius g =
     (newParticle pos \<lparr>X = 0, Y = 0\<rparr> 0 0 1 radius)\<lparr>Vel := vel, gamma := g\<rparr>"

text \<open>
  Speed of light 5, frame at rest. \<open>asym_p\<close> moves along the axis away from \<open>asym_q\<close> at
  speed 3, Lorentz factor 5/4; \<open>asym_q\<close> moves across the axis. Their centres are 0.6
  apart and both have radius 1, scaled 0.3.
\<close>

definition asym_p :: Particle where
  "asym_p = moving \<lparr>X = 3 / 5, Y = 0\<rparr> \<lparr>X = 3, Y = 0\<rparr> 1 (5 / 4)"

definition asym_q :: Particle where
  "asym_q = moving \<lparr>X = 0, Y = 0\<rparr> \<lparr>X = 0, Y = 3\<rparr> 1 (5 / 4)"

text \<open>
  Speed of light 5: two particles of radius 1 meet head on at speed 3 each, centres 0.5
  apart.
\<close>

definition headon_i :: Particle where
  "headon_i = moving \<lparr>X = 1 / 2, Y = 0\<rparr> \<lparr>X = - 3, Y = 0\<rparr> 1 (5 / 4)"

definition headon_j :: Particle where
  "headon_j = moving \<lparr>X = 0, Y = 0\<rparr> \<lparr>X = 3, Y = 0\<rparr> 1 (5 / 4)"

text \<open>The same meeting, the second particle of radius 2.\<close>

definition uneven_j :: Particle where
  "uneven_j = moving \<lparr>X = 0, Y = 0\<rparr> \<lparr>X = 3, Y = 0\<rparr> 2 (5 / 4)"

text \<open>
  Speed of light 1: two particles of radius 1, centres 0.5 apart, approach each other
  across a common drift of 1/2; each has speed \<open>sqrt 13 / 4 < 1\<close>. Lorentz factor 1, as
  after the first \<open>Update\<close> from rest in a frame at rest.
\<close>

definition fast_i :: Particle where
  "fast_i = moving \<lparr>X = 0, Y = 1 / 2\<rparr> \<lparr>X = 1 / 2, Y = - (3 / 4)\<rparr> 1 1"

definition fast_j :: Particle where
  "fast_j = moving \<lparr>X = 0, Y = 0\<rparr> \<lparr>X = 1 / 2, Y = 3 / 4\<rparr> 1 1"

text \<open>
  Speed of light 1, time step 1: a particle at rest at the origin with rapidity \<open>(1, 0)\<close>,
  pushed by the force \<open>(0, 1)\<close>.
\<close>

definition pushed :: Particle where
  "pushed = newParticle \<lparr>X = 0, Y = 0\<rparr> \<lparr>X = 1, Y = 0\<rparr> 0 0 1 1"

section \<open>Concrete pools\<close>

text \<open>
  \<open>one_of_two\<close> is \<open>NewPool 2\<close> after one activation at time 7; \<open>full_two\<close> is
  \<open>one_of_two\<close> after the activation of \<open>resting\<close> at time 8.
\<close>

definition one_of_two :: Pool where
  "one_of_two =
     \<lparr>particles = [Some pushed, None], active = [True, False], lifetimes = [7, 0],
      sprites = [3, 0], maxLifetime = 0, enforceLifetime = False, fadeOverLifetime = False,
      disableCollision = False\<rparr>"

definition resting :: Particle where
  "resting = newParticle \<lparr>X = 5, Y = 0\<rparr> \<lparr>X = 0, Y = 0\<rparr> 0 0 1 1"

definition full_two :: Pool where
  "full_two =
     \<lparr>particles = [Some pushed, Some resting], active = [True, True], lifetimes = [7, 8],
      sprites = [3, 0], maxLifetime = 0, enforceLifetime = False, fadeOverLifetime = False,
      disableCollision = False\<rparr>"

text \<open>
  A client session on \<open>NewPool 1\<close>: a lifetime of 10 is enforced, two particles are
  activated at times 0 and 5 (the second into a full pool), the pool is updated when the
  clock reads 12 and slot 0 is deactivated again. \<open>session_1\<close>, \<open>session_2\<close> and
  \<open>session_3\<close> are the pools after the first three calls, \<open>after_session\<close> the pool
  after the update and at the end.
\<close>

definition session :: "pool_op list" where
  "session =
     [OpEnforceLifetime 10,
      OpActivate 0 \<lparr>X = 0, Y = 0\<rparr> \<lparr>X = 1, Y = 0\<rparr> 0 0 1 1 3,
      OpActivate 5 \<lparr>X = 5, Y = 0\<rparr> \<lparr>X = 0, Y = 0\<rparr> 0 0 1 1 0,
      OpUpdate (\<lambda>i. 12) \<lparr>X = 0, Y = 0\<rparr> 1 1,
      OpDeactivate 0]"

definition after_session :: Pool where
  "after_session =
     \<lparr>particles = [None, Some (Update resting \<lparr>X = 0, Y = 0\<rparr> \<lparr>X = 0, Y = 0\<rparr> 1 1)],
      active = [False, True], lifetimes = [0, 5], sprites = [3, 0], maxLifetime = 10,
      enforceLifetime = True, fadeOverLifetime = False, disableCollision = False\<rparr>"

definition session_1 :: Pool where
  "session_1 = \<lparr>particles = [None], active = [False], lifetimes = [0], sprites = [0], maxLifetime = 10,
      enforceLifetime = True, fadeOverLifetime = False, disableCollision = False\<rparr>"

definition session_2 :: Pool where
  "session_2 = \<lparr>particles = [Some pushed], active = [True], lifetimes = [0], sprites = [3], maxLifetime = 10,
      enforceLifetime = True, fadeOverLifetime = False, disableCollision = False\<rparr>"

definition session_3 :: Pool where
  "session_3 = \<lparr>particles = [Some pushed, Some resting], active = [True, True], lifetimes = [0, 5],
      sprites = [3, 0], maxLifetime = 10,
      enforceLifetime = True, fadeOverLifetime = False, disableCollision = False\<rparr>"

section \<open>Vector facts\<close>

lemma Mag_nonneg: "0 \<le> Mag v"
  by (simp add: Mag_def)

lemma Mag_Sub_self: "Mag (Sub v v) = 0"
  by (simp add: Mag_def Sub_def)

lemma Mag_X: "Mag \<lparr>X = x, Y = 0\<rparr> = \<bar>x\<bar>"
  by (simp add: Mag_def)

lemma Mag_Y: "Mag \<lparr>X = 0, Y = y\<rparr> = \<bar>y\<bar>"
  by (simp add: Mag_def)

lemma Mag_Scl: "Mag (Scl v s) = Mag v * \<bar>s\<bar>"
proof -
  have "X v * s * (X v * s) + Y v * s * (Y v * s) = (X v * X v + Y v * Y v) * (s * s)"
    by (simp add: algebra_simps)
  then have "Mag (Scl v s) = sqrt ((X v * X v + Y v * Y v) * (s * s))"
    by (simp add: Mag_def Scl_def)
  also have "\<dots> = Mag v * \<bar>s\<bar>"
    by (simp add: Mag_def real_sqrt_mult)
  finally show ?thesis .
qed

lemma Mag_SetMag: "Mag v \<noteq> 0 \<Longrightarrow> Mag (SetMag v s) = \<bar>s\<bar>"
  by (simp add: SetMag_def Mag_Scl Mag_nonneg)

lemma Mag_SetMag_zero: "Mag v = 0 \<Longrightarrow> Mag (SetMag v s) = 0"
  by (simp add: SetMag_def)

lemmas vector_simps =
  Add_def Sub_def Neg_def Dot_def Scl_def Unit_def Unit_NaN_def SetMag_def Mag_X Mag_Y

lemmas particle_simps =
  moving_def newParticle_def ScaledRadius_def physScale_def Momentum_def MassRel_def

lemmas collision_simps =
  CheckCollision_def contracted_def radius_NaN_def

section \<open>The hyperbolic tangent lies below the identity\<close>

lemma tanh_less_self:
  fixes x :: real
  assumes "0 < x"
  shows "tanh x < x"
proof -
  have "(\<lambda>t. t - tanh t) 0 < (\<lambda>t. t - tanh t) x"
  proof (rule DERIV_pos_imp_increasing_open [OF assms])
    fix t :: real
    assume "0 < t" "t < x"
    have "((\<lambda>t. t - tanh t) has_real_derivative (1 - (1 - tanh t ^ 2))) (at t)"
      by (auto intro!: derivative_eq_intros)
    moreover have "0 < 1 - (1 - tanh t ^ 2)"
      using \<open>0 < t\<close> by simp
    ultimately show "\<exists>y. ((\<lambda>t. t - tanh t) has_real_derivative y) (at t) \<and> 0 < y"
      by blast
  next
    show "continuous_on {0..x} (\<lambda>t. t - tanh t)"
      by (intro continuous_intros) simp
  qed
  then show ?thesis by simp
qed

section \<open>The integration step\<close>

lemma Gamma_zero: "Gamma 0 c = 1"
  by (simp add: Gamma_def)

lemma Update_gamma: "gamma (Update p force frame c dt) = Gamma (Mag (Sub (Vel p) frame)) c"
  by (simp add: Update_def Let_def)

lemma Update_Vel: "Vel (Update p force frame c dt) = SetMag (Rap p) (c * tanh (Mag (Rap p) / c))"
  by (simp add: Update_def Let_def)

lemma Update_Rap:
  "Rap (Update p force frame c dt) =
     Add (Rap p) (Scl (Add (Acc p) (Scl force (1 / Mass p)))
                      (dt * Gamma (Mag (Sub (Vel p) frame)) c / 2))"
  by (simp add: Update_def Let_def)

text \<open>
  The stored speed with a margin: up to a rapidity of ten times the speed of light it
  stays below \<open>c\<close> by at least \<open>c / (4 * 10\<^sup>9)\<close>.
\<close>

lemma exp_twenty: "exp (20 :: real) \<le> 3486784401"
proof -
  have "exp (20 :: real) = exp (of_nat 20 * 1)"
    by simp
  also have "\<dots> = exp 1 ^ 20"
    by (rule exp_of_nat_mult)
  also have "\<dots> \<le> (3 :: real) ^ 20"
    by (rule power_mono) (simp_all add: exp_le)
  finally show ?thesis by simp
qed

lemma tanh_ten: "tanh (10 :: real) \<le> 1 - 1 / 4000000000"
proof -
  let ?u = "exp (- 20 :: real)"
  have u: "1 / 3486784401 \<le> ?u"
  proof -
    have "?u = 1 / exp 20" by (simp add: exp_minus inverse_eq_divide)
    moreover have "1 / (3486784401 :: real) \<le> 1 / exp 20"
      using exp_twenty by (intro divide_left_mono) simp_all
    ultimately show ?thesis by simp
  qed
  have pos: "0 < ?u" by simp
  have "tanh (10 :: real) = (1 - ?u) / (1 + ?u)"
    by (simp add: tanh_real_altdef)
  also have "\<dots> \<le> 1 - 1 / 4000000000"
  proof -
    have "1 - ?u \<le> (1 - 1 / 4000000000) * (1 + ?u)"
      using u by (simp add: algebra_simps)
    then show ?thesis
      using pos by (simp add: pos_divide_le_eq add_pos_pos)
  qed
  finally show ?thesis .
qed

lemma Update_speed_margin:
  assumes "0 < c" "Mag (Rap p) \<le> 10 * c"
  shows "Mag (Vel (Update p force frame c dt)) \<le> c * (1 - 1 / 4000000000)"
proof (cases "Mag (Rap p) = 0")
  case True
  then show ?thesis
    using assms(1) by (simp add: Update_Vel Mag_SetMag_zero)
next
  case False
  then have pos: "0 < Mag (Rap p) / c"
    using assms(1) Mag_nonneg [of "Rap p"] by simp
  have "Mag (Rap p) / c \<le> 10"
    using assms by (simp add: pos_divide_le_eq)
  then have "tanh (Mag (Rap p) / c) \<le> tanh 10"
    by simp
  also note tanh_ten
  finally have "c * tanh (Mag (Rap p) / c) \<le> c * (1 - 1 / 4000000000)"
    using assms(1) by (intro mult_left_mono) simp_all
  moreover have "0 < c * tanh (Mag (Rap p) / c)"
    using assms(1) pos by simp
  ultimately show ?thesis
    using False by (simp add: Update_Vel Mag_SetMag)
qed

text \<open>
  C10. With the particle's velocity equal to the frame's, the relative speed is 0, the
  Lorentz factor is exactly 1 and the angle of the relative velocity is 0, for every
  speed of light \<open>c > 0\<close>; the quotient and the square root of \<open>Gamma\<close> are taken of
  \<open>c * c \<noteq> 0\<close> and of a positive number. \<open>Update\<close> called with the frame at the
  particle's velocity stores the Lorentz factor 1.
\<close>

theorem zero_relative_speed:
  "0 < c \<Longrightarrow>
     Gamma (Mag (Sub v v)) c = 1 \<and> Angle (Sub v v) = 0 \<and>
     c * c \<noteq> 0 \<and> 0 < 1 - (Mag (Sub v v) * Mag (Sub v v)) / (c * c) \<and>
     (Vel p = frame \<longrightarrow> gamma (Update p force frame c dt) = 1)"
proof -
  assume c: "0 < c"
  have "Angle (Sub v v) = 0"
    by (simp add: Angle_def Atan2_def Sub_def)
  moreover have "Vel p = frame \<longrightarrow> gamma (Update p force frame c dt) = 1"
    by (simp add: Update_gamma Mag_Sub_self Gamma_zero)
  ultimately show ?thesis
    using c by (simp add: Mag_Sub_self Gamma_zero)
qed

theorem zero_relative_speed_witness:
  "(0 :: real) < 10 \<and>
   Gamma (Mag (Sub \<lparr>X = 3, Y = 4\<rparr> \<lparr>X = 3, Y = 4\<rparr>)) 10 = 1 \<and>
   Angle (Sub \<lparr>X = 3, Y = 4\<rparr> \<lparr>X = 3, Y = 4\<rparr>) = 0 \<and>
   Vel (headon_j\<lparr>Vel := \<lparr>X = 3, Y = 4\<rparr>\<rparr>) = \<lparr>X = 3, Y = 4\<rparr> \<and>
   gamma (Update (headon_j\<lparr>Vel := \<lparr>X = 3, Y = 4\<rparr>\<rparr>) \<lparr>X = 0, Y = 1\<rparr> \<lparr>X = 3, Y = 4\<rparr> 10 1) = 1"
  using zero_relative_speed
    [of 10 "\<lparr>X = 3, Y = 4\<rparr>" "headon_j\<lparr>Vel := \<lparr>X = 3, Y = 4\<rparr>\<rparr>" "\<lparr>X = 3, Y = 4\<rparr>"
        "\<lparr>X = 0, Y = 1\<rparr>" 1]
  by simp

text \<open>
  C2. \<open>Update\<close> derives the stored velocity from the rapidity the particle had before the
  call. For \<open>pushed\<close> the new rapidity is \<open>(1, 1/2)\<close> and the stored velocity is
  \<open>(tanh 1, 0)\<close>: it is not the image \<open>c * tanh (|rapidity'| / c)\<close> in the direction of
  the new rapidity.
\<close>

theorem Update_velocity_of_old_rapidity:
  "Rap (Update pushed \<lparr>X = 0, Y = 1\<rparr> \<lparr>X = 0, Y = 0\<rparr> 1 1) = \<lparr>X = 1, Y = 1 / 2\<rparr> \<and>
   Vel (Update pushed \<lparr>X = 0, Y = 1\<rparr> \<lparr>X = 0, Y = 0\<rparr> 1 1) = \<lparr>X = tanh 1, Y = 0\<rparr> \<and>
   Vel (Update pushed \<lparr>X = 0, Y = 1\<rparr> \<lparr>X = 0, Y = 0\<rparr> 1 1) \<noteq>
     SetMag (Rap (Update pushed \<lparr>X = 0, Y = 1\<rparr> \<lparr>X = 0, Y = 0\<rparr> 1 1))
       (1 * tanh (Mag (Rap (Update pushed \<lparr>X = 0, Y = 1\<rparr> \<lparr>X = 0, Y = 0\<rparr> 1 1)) / 1))"
proof -
  let ?u = "Update pushed \<lparr>X = 0, Y = 1\<rparr> \<lparr>X = 0, Y = 0\<rparr> 1 1"
  have rap: "Rap ?u = \<lparr>X = 1, Y = 1 / 2\<rparr>"
    by (simp add: Update_Rap pushed_def newParticle_def Gamma_zero vector_simps)
  have vel: "Vel ?u = \<lparr>X = tanh 1, Y = 0\<rparr>"
    by (simp add: Update_Vel pushed_def newParticle_def vector_simps)
  have m: "0 < Mag \<lparr>X = 1, Y = 1 / 2\<rparr>"
    by (simp add: Mag_def)
  then have y: "0 < Y (SetMag (Rap ?u) (1 * tanh (Mag (Rap ?u) / 1)))"
    unfolding rap by (simp add: SetMag_def Scl_def)
  have "Vel ?u \<noteq> SetMag (Rap ?u) (1 * tanh (Mag (Rap ?u) / 1))"
  proof
    assume "Vel ?u = SetMag (Rap ?u) (1 * tanh (Mag (Rap ?u) / 1))"
    then have "Y (Vel ?u) = Y (SetMag (Rap ?u) (1 * tanh (Mag (Rap ?u) / 1)))"
      by (rule arg_cong)
    with y show False
      by (simp add: vel)
  qed
  with rap vel show ?thesis by blast
qed

section \<open>Collisions of two particles\<close>

lemma pairs_two: "pairs (Suc (Suc 0)) = [(0, Suc 0)]"
  by (simp add: pairs_def upt_conv_Cons)

lemma SolveCollisions_two:
  "SolveCollisions [a, b] frame c =
     (if CheckCollision a b frame then [fst (bounce a b c), snd (bounce a b c)] else [a, b])"
  by (simp add: SolveCollisions_def pairs_two solve_pair_def Let_def)

text \<open>
  C3. \<open>CheckCollision\<close> depends on the order of its two particles: the axis changes sign
  with the order, and with it the sign of the contraction term, so that a particle moving
  against the axis gets a radius above its scaled radius. \<open>asym_p\<close> against \<open>asym_q\<close>:
  radii 0.24 and 0.3, no collision at distance 0.6; \<open>asym_q\<close> against \<open>asym_p\<close>: radii
  0.3 and 0.36, collision.
\<close>

theorem CheckCollision_order:
  "\<not> CheckCollision asym_p asym_q \<lparr>X = 0, Y = 0\<rparr> \<and> CheckCollision asym_q asym_p \<lparr>X = 0, Y = 0\<rparr>"
  by (simp add: collision_simps asym_p_def asym_q_def particle_simps vector_simps)

lemma headon_collide: "CheckCollision headon_i headon_j \<lparr>X = 0, Y = 0\<rparr>"
  by (simp add: collision_simps headon_i_def headon_j_def particle_simps vector_simps)

lemma headon_bounce:
  "bounce headon_i headon_j 5 =
     (headon_i\<lparr>Pos := \<lparr>X = 11 / 20, Y = 0\<rparr>, Rap := \<lparr>X = 5 * tanh (3 / 5), Y = 0\<rparr>,
               Vel := \<lparr>X = 3, Y = 0\<rparr>\<rparr>,
      headon_j\<lparr>Pos := \<lparr>X = - (1 / 20), Y = 0\<rparr>, Rap := \<lparr>X = - (5 * tanh (3 / 5)), Y = 0\<rparr>,
               Vel := \<lparr>X = - 3, Y = 0\<rparr>\<rparr>)"
  by (simp add: bounce_def Let_def headon_i_def headon_j_def particle_simps vector_simps)

lemma artanh_three_fifths: "artanh (3 / 5 :: real) = ln 2"
proof -
  have "tanh (ln (2 :: real)) = 3 / 5"
    by (simp add: tanh_ln_real)
  then have "artanh (3 / 5 :: real) = artanh (tanh (ln 2))"
    by (rule arg_cong [symmetric])
  then show ?thesis
    by (simp only: artanh_tanh_real)
qed

lemma tanh_three_fifths: "tanh (3 / 5 :: real) < ln 2"
proof -
  have "tanh (ln (2 :: real)) < ln 2"
    by (rule tanh_less_self) simp
  then have "(3 / 5 :: real) < ln 2"
    by (simp add: tanh_ln_real)
  moreover have "tanh (3 / 5 :: real) < 3 / 5"
    by (rule tanh_less_self) simp
  ultimately show ?thesis by linarith
qed

text \<open>
  C4. \<open>SolveCollisions\<close> stores as rapidity the forward image \<open>c * tanh (|v'| / c)\<close> of
  the new velocity \<open>v'\<close>, in the direction of \<open>v'\<close>. For the head-on pair the first
  particle leaves with velocity \<open>(3, 0)\<close> and rapidity \<open>(5 * tanh (3/5), 0)\<close>. That is
  not the inverse image \<open>unit v' * c * artanh (|v'| / c)\<close>, and the velocity derived from
  the stored rapidity by the forward mapping is not \<open>v'\<close>.
\<close>

theorem SolveCollisions_rapidity_forward:
  "Vel (SolveCollisions [headon_i, headon_j] \<lparr>X = 0, Y = 0\<rparr> 5 ! 0) = \<lparr>X = 3, Y = 0\<rparr> \<and>
   Mag (Vel (SolveCollisions [headon_i, headon_j] \<lparr>X = 0, Y = 0\<rparr> 5 ! 0)) < 5 \<and>
   Rap (SolveCollisions [headon_i, headon_j] \<lparr>X = 0, Y = 0\<rparr> 5 ! 0) =
     \<lparr>X = 5 * tanh (3 / 5), Y = 0\<rparr> \<and>
   Rap (SolveCollisions [headon_i, headon_j] \<lparr>X = 0, Y = 0\<rparr> 5 ! 0) \<noteq>
     Scl (Unit (Vel (SolveCollisions [headon_i, headon_j] \<lparr>X = 0, Y = 0\<rparr> 5 ! 0)))
       (5 * artanh (Mag (Vel (SolveCollisions [headon_i, headon_j] \<lparr>X = 0, Y = 0\<rparr> 5 ! 0)) / 5)) \<and>
   SetMag (Rap (SolveCollisions [headon_i, headon_j] \<lparr>X = 0, Y = 0\<rparr> 5 ! 0))
       (5 * tanh (Mag (Rap (SolveCollisions [headon_i, headon_j] \<lparr>X = 0, Y = 0\<rparr> 5 ! 0)) / 5)) \<noteq>
     Vel (SolveCollisions [headon_i, headon_j] \<lparr>X = 0, Y = 0\<rparr> 5 ! 0)"
proof -
  let ?a = "SolveCollisions [headon_i, headon_j] \<lparr>X = 0, Y = 0\<rparr> 5 ! 0"
  have a: "?a = headon_i\<lparr>Pos := \<lparr>X = 11 / 20, Y = 0\<rparr>, Rap := \<lparr>X = 5 * tanh (3 / 5), Y = 0\<rparr>,
               Vel := \<lparr>X = 3, Y = 0\<rparr>\<rparr>"
    by (simp add: SolveCollisions_two headon_collide headon_bounce)
  have vel: "Vel ?a = \<lparr>X = 3, Y = 0\<rparr>" and rap: "Rap ?a = \<lparr>X = 5 * tanh (3 / 5), Y = 0\<rparr>"
    by (simp_all add: a)
  have t: "0 < tanh (3 / 5 :: real)"
    by simp
  have inverse: "Scl (Unit \<lparr>X = 3, Y = 0\<rparr>) (5 * artanh (Mag \<lparr>X = 3, Y = 0\<rparr> / 5)) =
      \<lparr>X = 5 * ln 2, Y = 0\<rparr>"
    by (simp add: vector_simps artanh_three_fifths)
  have not_inverse: "Rap ?a \<noteq> Scl (Unit (Vel ?a)) (5 * artanh (Mag (Vel ?a) / 5))"
    unfolding vel rap inverse using tanh_three_fifths by simp
  have "tanh (tanh (3 / 5 :: real)) < tanh (3 / 5)"
    by (rule tanh_less_self) simp
  also have "tanh (3 / 5 :: real) < 3 / 5"
    by (rule tanh_less_self) simp
  finally have "tanh (tanh (3 / 5 :: real)) < 3 / 5" .
  then have "SetMag \<lparr>X = 5 * tanh (3 / 5), Y = 0\<rparr>
       (5 * tanh (Mag \<lparr>X = 5 * tanh (3 / 5), Y = 0\<rparr> / 5)) \<noteq> \<lparr>X = 3, Y = 0\<rparr>"
    using t by (simp add: vector_simps)
  then have "SetMag (Rap ?a) (5 * tanh (Mag (Rap ?a) / 5)) \<noteq> Vel ?a"
    unfolding vel rap .
  with not_inverse show ?thesis
    using vel rap by (simp add: Mag_X)
qed

lemma uneven_collide: "CheckCollision headon_i uneven_j \<lparr>X = 0, Y = 0\<rparr>"
  by (simp add: collision_simps headon_i_def uneven_j_def particle_simps vector_simps)

lemma uneven_bounce:
  "bounce headon_i uneven_j 5 =
     (headon_i\<lparr>Pos := \<lparr>X = 7 / 10, Y = 0\<rparr>, Rap := \<lparr>X = 5 * tanh (3 / 5), Y = 0\<rparr>,
               Vel := \<lparr>X = 3, Y = 0\<rparr>\<rparr>,
      uneven_j\<lparr>Pos := \<lparr>X = - (1 / 5), Y = 0\<rparr>, Rap := \<lparr>X = - (5 * tanh (3 / 5)), Y = 0\<rparr>,
               Vel := \<lparr>X = - 3, Y = 0\<rparr>\<rparr>)"
  by (simp add: bounce_def Let_def headon_i_def uneven_j_def particle_simps vector_simps)

text \<open>
  C5. The pair \<open>headon_i\<close>, \<open>uneven_j\<close> collides (distinct positions, both moving in the
  frame). \<open>SolveCollisions\<close> moves the centres to \<open>(0.7, 0)\<close> and \<open>(-0.2, 0)\<close>, exactly
  the sum 0.9 of the scaled radii apart, and reverses the velocities. \<open>CheckCollision\<close>
  on the resolved pair, same frame, is true again: the second particle now moves against
  the axis and its radius along the axis is 0.72, the first one's 0.24.
\<close>

theorem SolveCollisions_still_colliding:
  "CheckCollision headon_i uneven_j \<lparr>X = 0, Y = 0\<rparr> \<and>
   Mag (Sub (Pos (SolveCollisions [headon_i, uneven_j] \<lparr>X = 0, Y = 0\<rparr> 5 ! 0))
            (Pos (SolveCollisions [headon_i, uneven_j] \<lparr>X = 0, Y = 0\<rparr> 5 ! 1))) =
     ScaledRadius headon_i + ScaledRadius uneven_j \<and>
   CheckCollision (SolveCollisions [headon_i, uneven_j] \<lparr>X = 0, Y = 0\<rparr> 5 ! 0)
                  (SolveCollisions [headon_i, uneven_j] \<lparr>X = 0, Y = 0\<rparr> 5 ! 1) \<lparr>X = 0, Y = 0\<rparr>"
proof -
  have s: "SolveCollisions [headon_i, uneven_j] \<lparr>X = 0, Y = 0\<rparr> 5 =
      [fst (bounce headon_i uneven_j 5), snd (bounce headon_i uneven_j 5)]"
    by (simp add: SolveCollisions_two uneven_collide)
  show ?thesis
    unfolding s uneven_bounce
    using uneven_collide
    by (simp add: collision_simps headon_i_def uneven_j_def particle_simps vector_simps)
qed

lemma fast_collide: "CheckCollision fast_i fast_j \<lparr>X = 0, Y = 0\<rparr>"
  by (simp add: collision_simps fast_i_def fast_j_def particle_simps vector_simps)

lemma fast_bounce_vel:
  "Vel (fst (bounce fast_i fast_j 1)) = \<lparr>X = 1 / 2, Y = 1\<rparr>"
  by (simp add: bounce_def Let_def fast_i_def fast_j_def particle_simps vector_simps)

text \<open>
  C1, the part that fails. \<open>fast_i\<close> and \<open>fast_j\<close> both move below the speed of
  light 1 and collide. \<open>SolveCollisions\<close> assigns to the first the velocity
  \<open>(1/2, 1)\<close>, of magnitude \<open>sqrt 5 / 2 > 1\<close>: the transformation to the centre of
  momentum divides both components by \<open>1 - v \<cdot> CoM / c\<^sup>2\<close> and does not bound the
  result.
\<close>

theorem SolveCollisions_superluminal:
  "Mag (Vel fast_i) < 1 \<and> Mag (Vel fast_j) < 1 \<and>
   CheckCollision fast_i fast_j \<lparr>X = 0, Y = 0\<rparr> \<and>
   Vel (SolveCollisions [fast_i, fast_j] \<lparr>X = 0, Y = 0\<rparr> 1 ! 0) = \<lparr>X = 1 / 2, Y = 1\<rparr> \<and>
   \<not> Mag (Vel (SolveCollisions [fast_i, fast_j] \<lparr>X = 0, Y = 0\<rparr> 1 ! 0)) < 1"
proof -
  have v: "Vel (SolveCollisions [fast_i, fast_j] \<lparr>X = 0, Y = 0\<rparr> 1 ! 0) = \<lparr>X = 1 / 2, Y = 1\<rparr>"
    by (simp add: SolveCollisions_two fast_collide fast_bounce_vel)
  have "Mag (Vel fast_i) < 1" "Mag (Vel fast_j) < 1"
    by (simp_all add: fast_i_def fast_j_def moving_def Mag_def)
  moreover have "\<not> Mag \<lparr>X = 1 / 2, Y = 1\<rparr> < 1"
    by (simp add: Mag_def)
  ultimately show ?thesis
    using v fast_collide by simp
qed

section \<open>Activation and deactivation\<close>

lemma Activate_loop_skip:
  "\<forall>j \<in> set xs. j < length (active p) \<and> active p ! j \<Longrightarrow>
   Activate_loop (xs @ ys) p now pos rap angPos angVel mass radius sprite =
   Activate_loop ys p now pos rap angPos angVel mass radius sprite"
  by (induction xs) auto

lemma Activate_first_inactive:
  assumes len: "length (active p) = length (particles p)"
      "length (lifetimes p) = length (particles p)" "length (sprites p) = length (particles p)"
    and i: "i < length (particles p)" "\<not> active p ! i" "\<forall>j < i. active p ! j"
  shows "Activate p now pos rap angPos angVel mass radius sprite =
    Inr (p\<lparr>active := (active p)[i := True], lifetimes := (lifetimes p)[i := now],
           sprites := (sprites p)[i := sprite],
           particles := (particles p)[i := Some (newParticle pos rap angPos angVel mass radius)]\<rparr>)"
proof -
  have split: "[0..<length (particles p)] = [0..<i] @ i # [Suc i..<length (particles p)]"
    using i(1) by (metis upt_conv_Cons le0 upt_add_eq_append le_add_diff_inverse less_imp_le_nat)
  have "\<forall>j \<in> set [0..<i]. j < length (active p) \<and> active p ! j"
    using i len by auto
  then show ?thesis
    unfolding Activate_def split
    using len i by (simp add: Activate_loop_skip)
qed

lemma Activate_full:
  assumes len: "length (active p) = length (particles p)"
    and full: "\<forall>j < length (particles p). active p ! j"
  shows "Activate p now pos rap angPos angVel mass radius sprite =
    Inr (appendNew p now pos rap angPos angVel mass radius sprite)"
proof -
  have "\<forall>j \<in> set [0..<length (particles p)]. j < length (active p) \<and> active p ! j"
    using len full by auto
  from Activate_loop_skip [OF this, of "[]"] show ?thesis
    by (simp add: Activate_def)
qed

lemma Activate_loop_shape:
  assumes "Activate_loop is p now pos rap angPos angVel mass radius sprite = Inr p'"
    "\<forall>i \<in> set is. i < length (particles p)"
  shows "(\<exists>i < length (particles p).
            particles p' = (particles p)[i := Some (newParticle pos rap angPos angVel mass radius)]) \<or>
         particles p' = particles p @ [Some (newParticle pos rap angPos angVel mass radius)]"
  using assms
proof (induction "is")
  case Nil
  then show ?case by (auto simp: appendNew_def)
next
  case (Cons i "is")
  then show ?case
    by (auto split: if_splits)
qed

lemma Mag_zero: "Mag \<lparr>X = 0, Y = 0\<rparr> = 0"
  by (simp add: Mag_def)

lemma Activate_loop_succeeds:
  assumes "length (active p) = length (particles p)"
    "length (lifetimes p) = length (particles p)" "length (sprites p) = length (particles p)"
    "\<forall>i \<in> set is. i < length (particles p)"
  shows "\<exists>p'. Activate_loop is p now pos rap angPos angVel mass radius sprite = Inr p'"
  using assms by (induction "is") auto

lemma Activate_loop_inv:
  assumes "pool_inv p" "\<forall>i \<in> set is. i < length (particles p)"
  shows "\<exists>p'. Activate_loop is p now pos rap angPos angVel mass radius sprite = Inr p' \<and> pool_inv p'"
  using assms
proof (induction "is")
  case Nil
  then show ?case
    by (auto simp: appendNew_def pool_inv_def nth_append)
next
  case (Cons i "is")
  then show ?case
    by (auto simp: pool_inv_def nth_list_update)
qed

lemma Activate_inv:
  assumes "pool_inv p"
  shows "\<exists>p'. Activate p now pos rap angPos angVel mass radius sprite = Inr p' \<and> pool_inv p'"
  unfolding Activate_def by (rule Activate_loop_inv [OF assms]) simp

lemma Deactivate_inv:
  assumes "pool_inv p" "Deactivate p i = Inr r"
  shows "pool_inv (fst r)"
  using assms
  by (auto simp: Deactivate_def pool_inv_def nth_list_update split: if_splits)

lemma upt_two: "[0..<2] = [0, Suc 0]"
  by (simp add: upt_conv_Cons numeral_2_eq_2)

lemma replicate_two: "replicate 2 x = [x, x]"
  by (simp add: numeral_2_eq_2)

lemma Activate_NewPool_two:
  "Activate (NewPool 2) 7 \<lparr>X = 0, Y = 0\<rparr> \<lparr>X = 1, Y = 0\<rparr> 0 0 1 1 3 = Inr one_of_two"
  by (simp add: Activate_def NewPool_def replicate_two upt_two one_of_two_def pushed_def zeroTime_def)

lemma Activate_one_of_two:
  "Activate one_of_two 8 \<lparr>X = 5, Y = 0\<rparr> \<lparr>X = 0, Y = 0\<rparr> 0 0 1 1 0 = Inr full_two"
  by (simp add: Activate_def one_of_two_def full_two_def upt_two resting_def)

lemma one_of_two_inv: "pool_inv one_of_two"
  by (simp add: pool_inv_def one_of_two_def nth_Cons split: nat.splits)

lemma full_two_inv: "pool_inv full_two"
  by (simp add: pool_inv_def full_two_def nth_Cons split: nat.splits)

lemma less_two: "(\<forall>j < Suc (Suc 0). P j) \<longleftrightarrow> P 0 \<and> P (Suc 0)"
  by (auto simp: less_Suc_eq)

text \<open>
  C1, as amended. For every speed of light \<open>c > 0\<close> and every particle whose rapidity has
  magnitude at most \<open>10 * c\<close>, the velocity that \<open>Update\<close> stores has magnitude at most
  \<open>c * (1 - 1 / (4 * 10\<^sup>9))\<close>, hence strictly below \<open>c\<close>, with a margin that the rounding
  of float64 does not reach. A successful \<open>Activate\<close> changes one slot only, and the
  particle it stores there has velocity exactly zero, hence below \<open>c\<close>. Nothing is said
  of larger rapidities: in float64 math.Tanh is exactly 1 from an argument of about 19
  on, and the stored speed is then \<open>c\<close> itself.
\<close>

theorem sub_light_Update_Activate:
  "0 < c \<Longrightarrow> Mag (Rap q) \<le> 10 * c \<Longrightarrow>
     Mag (Vel (Update q force frame c dt)) \<le> c * (1 - 1 / 4000000000) \<and>
     Mag (Vel (Update q force frame c dt)) < c \<and>
     (\<forall>p'. Activate p now pos rap angPos angVel mass radius sprite = Inr p' \<longrightarrow>
        (\<exists>i < length (particles p').
           particles p' ! i = Some (newParticle pos rap angPos angVel mass radius) \<and>
           Vel (newParticle pos rap angPos angVel mass radius) = \<lparr>X = 0, Y = 0\<rparr> \<and>
           Mag (Vel (newParticle pos rap angPos angVel mass radius)) < c \<and>
           (\<forall>j < length (particles p'). j \<noteq> i \<longrightarrow>
              j < length (particles p) \<and> particles p' ! j = particles p ! j)))"
proof -
  assume c: "0 < c" and r: "Mag (Rap q) \<le> 10 * c"
  let ?new = "newParticle pos rap angPos angVel mass radius"
  have zero: "Vel ?new = \<lparr>X = 0, Y = 0\<rparr>"
    by (simp add: newParticle_def)
  have speed: "Mag (Vel ?new) < c"
    using c by (simp add: newParticle_def Mag_zero)
  have "\<exists>i < length (particles p').
           particles p' ! i = Some ?new \<and> Vel ?new = \<lparr>X = 0, Y = 0\<rparr> \<and>
           Mag (Vel ?new) < c \<and>
           (\<forall>j < length (particles p'). j \<noteq> i \<longrightarrow>
              j < length (particles p) \<and> particles p' ! j = particles p ! j)"
    if "Activate p now pos rap angPos angVel mass radius sprite = Inr p'" for p'
  proof -
    from that have "(\<exists>i < length (particles p). particles p' = (particles p)[i := Some ?new]) \<or>
         particles p' = particles p @ [Some ?new]"
      unfolding Activate_def by (rule Activate_loop_shape) simp
    then show ?thesis
    proof
      assume "\<exists>i < length (particles p). particles p' = (particles p)[i := Some ?new]"
      then obtain i where "i < length (particles p)" "particles p' = (particles p)[i := Some ?new]"
        by blast
      with speed zero show ?thesis
        by (intro exI [of _ i]) simp
    next
      assume "particles p' = particles p @ [Some ?new]"
      with speed zero show ?thesis
        by (intro exI [of _ "length (particles p)"]) (auto simp: nth_append)
    qed
  qed
  moreover note margin = Update_speed_margin [OF c r, of force frame dt]
  moreover have "c * (1 - 1 / 4000000000) < c"
    using c by simp
  with margin have "Mag (Vel (Update q force frame c dt)) < c"
    by (rule le_less_trans)
  ultimately show ?thesis by blast
qed

text \<open>
  Witness: \<open>c = 1\<close>, the particle \<open>pushed\<close> of rapidity \<open>(1, 0)\<close>, and its activation in
  \<open>NewPool 2\<close>.
\<close>

theorem sub_light_Update_Activate_witness:
  "(0 :: real) < 1 \<and> Mag (Rap pushed) \<le> 10 * 1 \<and>
   Mag (Vel (Update pushed \<lparr>X = 0, Y = 1\<rparr> \<lparr>X = 0, Y = 0\<rparr> 1 1)) \<le> 1 * (1 - 1 / 4000000000) \<and>
   Mag (Vel (Update pushed \<lparr>X = 0, Y = 1\<rparr> \<lparr>X = 0, Y = 0\<rparr> 1 1)) < 1 \<and>
   Activate (NewPool 2) 7 \<lparr>X = 0, Y = 0\<rparr> \<lparr>X = 1, Y = 0\<rparr> 0 0 1 1 3 = Inr one_of_two \<and>
   (\<exists>i < length (particles one_of_two).
      particles one_of_two ! i = Some (newParticle \<lparr>X = 0, Y = 0\<rparr> \<lparr>X = 1, Y = 0\<rparr> 0 0 1 1) \<and>
      Vel (newParticle \<lparr>X = 0, Y = 0\<rparr> \<lparr>X = 1, Y = 0\<rparr> 0 0 1 1) = \<lparr>X = 0, Y = 0\<rparr> \<and>
      Mag (Vel (newParticle \<lparr>X = 0, Y = 0\<rparr> \<lparr>X = 1, Y = 0\<rparr> 0 0 1 1)) < 1)"
proof -
  have c: "(0 :: real) < 1" by simp
  have r: "Mag (Rap pushed) \<le> 10 * 1"
    by (simp add: pushed_def newParticle_def Mag_X)
  note t = sub_light_Update_Activate [OF c r, of "\<lparr>X = 0, Y = 1\<rparr>" "\<lparr>X = 0, Y = 0\<rparr>" 1
      "NewPool 2" 7 "\<lparr>X = 0, Y = 0\<rparr>" "\<lparr>X = 1, Y = 0\<rparr>" 0 0 1 1 3]
  from t have u1: "Mag (Vel (Update pushed \<lparr>X = 0, Y = 1\<rparr> \<lparr>X = 0, Y = 0\<rparr> 1 1))
      \<le> 1 * (1 - 1 / 4000000000)"
    by (rule conjunct1)
  from t have u2: "Mag (Vel (Update pushed \<lparr>X = 0, Y = 1\<rparr> \<lparr>X = 0, Y = 0\<rparr> 1 1)) < 1"
    by (elim conjE)
  from t have "\<forall>p'. Activate (NewPool 2) 7 \<lparr>X = 0, Y = 0\<rparr> \<lparr>X = 1, Y = 0\<rparr> 0 0 1 1 3 = Inr p' \<longrightarrow>
        (\<exists>i < length (particles p').
           particles p' ! i = Some (newParticle \<lparr>X = 0, Y = 0\<rparr> \<lparr>X = 1, Y = 0\<rparr> 0 0 1 1) \<and>
           Vel (newParticle \<lparr>X = 0, Y = 0\<rparr> \<lparr>X = 1, Y = 0\<rparr> 0 0 1 1) = \<lparr>X = 0, Y = 0\<rparr> \<and>
           Mag (Vel (newParticle \<lparr>X = 0, Y = 0\<rparr> \<lparr>X = 1, Y = 0\<rparr> 0 0 1 1)) < 1 \<and>
           (\<forall>j < length (particles p'). j \<noteq> i \<longrightarrow>
              j < length (particles (NewPool 2)) \<and> particles p' ! j = particles (NewPool 2) ! j))"
    by (elim conjE)
  then have "Activate (NewPool 2) 7 \<lparr>X = 0, Y = 0\<rparr> \<lparr>X = 1, Y = 0\<rparr> 0 0 1 1 3 = Inr one_of_two \<longrightarrow>
        (\<exists>i < length (particles one_of_two).
           particles one_of_two ! i = Some (newParticle \<lparr>X = 0, Y = 0\<rparr> \<lparr>X = 1, Y = 0\<rparr> 0 0 1 1) \<and>
           Vel (newParticle \<lparr>X = 0, Y = 0\<rparr> \<lparr>X = 1, Y = 0\<rparr> 0 0 1 1) = \<lparr>X = 0, Y = 0\<rparr> \<and>
           Mag (Vel (newParticle \<lparr>X = 0, Y = 0\<rparr> \<lparr>X = 1, Y = 0\<rparr> 0 0 1 1)) < 1 \<and>
           (\<forall>j < length (particles one_of_two). j \<noteq> i \<longrightarrow>
              j < length (particles (NewPool 2)) \<and>
              particles one_of_two ! j = particles (NewPool 2) ! j))"
    by (rule spec)
  from this Activate_NewPool_two have "\<exists>i < length (particles one_of_two).
           particles one_of_two ! i = Some (newParticle \<lparr>X = 0, Y = 0\<rparr> \<lparr>X = 1, Y = 0\<rparr> 0 0 1 1) \<and>
           Vel (newParticle \<lparr>X = 0, Y = 0\<rparr> \<lparr>X = 1, Y = 0\<rparr> 0 0 1 1) = \<lparr>X = 0, Y = 0\<rparr> \<and>
           Mag (Vel (newParticle \<lparr>X = 0, Y = 0\<rparr> \<lparr>X = 1, Y = 0\<rparr> 0 0 1 1)) < 1 \<and>
           (\<forall>j < length (particles one_of_two). j \<noteq> i \<longrightarrow>
              j < length (particles (NewPool 2)) \<and>
              particles one_of_two ! j = particles (NewPool 2) ! j)"
    by (rule mp)
  then obtain i where "i < length (particles one_of_two)"
      "particles one_of_two ! i = Some (newParticle \<lparr>X = 0, Y = 0\<rparr> \<lparr>X = 1, Y = 0\<rparr> 0 0 1 1)"
      "Vel (newParticle \<lparr>X = 0, Y = 0\<rparr> \<lparr>X = 1, Y = 0\<rparr> 0 0 1 1) = \<lparr>X = 0, Y = 0\<rparr>"
      "Mag (Vel (newParticle \<lparr>X = 0, Y = 0\<rparr> \<lparr>X = 1, Y = 0\<rparr> 0 0 1 1)) < 1"
    by (elim exE conjE) (rule that)
  then have "\<exists>i < length (particles one_of_two).
      particles one_of_two ! i = Some (newParticle \<lparr>X = 0, Y = 0\<rparr> \<lparr>X = 1, Y = 0\<rparr> 0 0 1 1) \<and>
      Vel (newParticle \<lparr>X = 0, Y = 0\<rparr> \<lparr>X = 1, Y = 0\<rparr> 0 0 1 1) = \<lparr>X = 0, Y = 0\<rparr> \<and>
      Mag (Vel (newParticle \<lparr>X = 0, Y = 0\<rparr> \<lparr>X = 1, Y = 0\<rparr> 0 0 1 1)) < 1"
    by (intro exI [of _ i] conjI)
  with c r u1 u2 Activate_NewPool_two show ?thesis
    by (intro conjI)
qed

text \<open>
  C6. In a pool whose four slices have one length \<open>Activate\<close> never fails. It
  fills the lowest-indexed inactive slot \<open>i\<close> (active flag, time stamp, sprite and
  particle of slot \<open>i\<close>, nothing else); if every slot is active it appends one slot to
  each of the four slices and leaves the existing entries alone. The particle it stores
  has velocity and acceleration zero, Lorentz factor 1 and clock 0. In a full pool,
  deactivating slot \<open>k\<close> and activating once more stores the new particle in slot
  \<open>k\<close> and keeps the length of the pool.
\<close>

theorem Activate_slot_policy:
  assumes "length (active p) = length (particles p)"
    "length (lifetimes p) = length (particles p)" "length (sprites p) = length (particles p)"
  shows
    "(\<exists>p'. Activate p now pos rap angPos angVel mass radius sprite = Inr p') \<and>
     (\<forall>i < length (particles p). \<not> active p ! i \<and> (\<forall>j < i. active p ! j) \<longrightarrow>
        Activate p now pos rap angPos angVel mass radius sprite =
          Inr (p\<lparr>active := (active p)[i := True], lifetimes := (lifetimes p)[i := now],
                 sprites := (sprites p)[i := sprite],
                 particles :=
                   (particles p)[i := Some (newParticle pos rap angPos angVel mass radius)]\<rparr>)) \<and>
     ((\<forall>j < length (particles p). active p ! j) \<longrightarrow>
        Activate p now pos rap angPos angVel mass radius sprite =
          Inr (p\<lparr>active := active p @ [True], lifetimes := lifetimes p @ [now],
                 sprites := sprites p @ [sprite],
                 particles :=
                   particles p @ [Some (newParticle pos rap angPos angVel mass radius)]\<rparr>)) \<and>
     Vel (newParticle pos rap angPos angVel mass radius) = \<lparr>X = 0, Y = 0\<rparr> \<and>
     Acc (newParticle pos rap angPos angVel mass radius) = \<lparr>X = 0, Y = 0\<rparr> \<and>
     gamma (newParticle pos rap angPos angVel mass radius) = 1 \<and>
     Clock (newParticle pos rap angPos angVel mass radius) = 0 \<and>
     (\<forall>k < length (particles p). (\<forall>j < length (particles p). active p ! j) \<longrightarrow>
        (\<exists>p1 p2. Deactivate p k = Inr (p1, True) \<and>
           Activate p1 now pos rap angPos angVel mass radius sprite = Inr p2 \<and>
           active p2 ! k \<and>
           particles p2 ! k = Some (newParticle pos rap angPos angVel mass radius) \<and>
           length (particles p2) = length (particles p) \<and>
           (\<forall>j < length (particles p). j \<noteq> k \<longrightarrow>
              active p2 ! j \<and> particles p2 ! j = particles p ! j)))"
proof -
  let ?new = "newParticle pos rap angPos angVel mass radius"
  note len = assms
  have ex: "\<exists>p'. Activate p now pos rap angPos angVel mass radius sprite = Inr p'"
    unfolding Activate_def by (rule Activate_loop_succeeds [OF len]) simp
  have first: "\<forall>i < length (particles p). \<not> active p ! i \<and> (\<forall>j < i. active p ! j) \<longrightarrow>
        Activate p now pos rap angPos angVel mass radius sprite =
          Inr (p\<lparr>active := (active p)[i := True], lifetimes := (lifetimes p)[i := now],
                 sprites := (sprites p)[i := sprite],
                 particles := (particles p)[i := Some ?new]\<rparr>)"
    using Activate_first_inactive [OF len] by blast
  have full: "(\<forall>j < length (particles p). active p ! j) \<longrightarrow>
        Activate p now pos rap angPos angVel mass radius sprite =
          Inr (p\<lparr>active := active p @ [True], lifetimes := lifetimes p @ [now],
                 sprites := sprites p @ [sprite], particles := particles p @ [Some ?new]\<rparr>)"
    using Activate_full [OF len(1)] by (simp add: appendNew_def)
  have fresh: "Vel ?new = \<lparr>X = 0, Y = 0\<rparr>" "Acc ?new = \<lparr>X = 0, Y = 0\<rparr>" "gamma ?new = 1"
      "Clock ?new = 0"
    by (simp_all add: newParticle_def)
  have reuse: "\<exists>p1 p2. Deactivate p k = Inr (p1, True) \<and>
           Activate p1 now pos rap angPos angVel mass radius sprite = Inr p2 \<and>
           active p2 ! k \<and> particles p2 ! k = Some ?new \<and>
           length (particles p2) = length (particles p) \<and>
           (\<forall>j < length (particles p). j \<noteq> k \<longrightarrow>
              active p2 ! j \<and> particles p2 ! j = particles p ! j)"
    if k: "k < length (particles p)" and all: "\<forall>j < length (particles p). active p ! j" for k
  proof -
    let ?p1 = "p\<lparr>active := (active p)[k := False], particles := (particles p)[k := None]\<rparr>"
    let ?p2 = "?p1\<lparr>active := (active ?p1)[k := True], lifetimes := (lifetimes ?p1)[k := now],
                 sprites := (sprites ?p1)[k := sprite],
                 particles := (particles ?p1)[k := Some ?new]\<rparr>"
    have d: "Deactivate p k = Inr (?p1, True)"
      using k all len by (simp add: Deactivate_def)
    have a: "Activate ?p1 now pos rap angPos angVel mass radius sprite = Inr ?p2"
      by (rule Activate_first_inactive) (use k all len in auto)
    have "active ?p2 ! k" "particles ?p2 ! k = Some ?new"
      "length (particles ?p2) = length (particles p)"
      "\<forall>j < length (particles p). j \<noteq> k \<longrightarrow> active ?p2 ! j \<and> particles ?p2 ! j = particles p ! j"
      using k all len by auto
    with d a show ?thesis by blast
  qed
  from ex first full fresh reuse show ?thesis by blast
qed

text \<open>
  Witness: the second activation in \<open>NewPool 2\<close> fills slot 1, a third one grows the
  full pool to three slots, and after \<open>Deactivate 0\<close> the activation reuses slot 0.
\<close>

theorem Activate_slot_policy_witness:
  "length (active one_of_two) = length (particles one_of_two) \<and>
   length (lifetimes one_of_two) = length (particles one_of_two) \<and>
   length (sprites one_of_two) = length (particles one_of_two) \<and>
   length (active full_two) = length (particles full_two) \<and>
   length (lifetimes full_two) = length (particles full_two) \<and>
   length (sprites full_two) = length (particles full_two) \<and>
   Suc 0 < length (particles one_of_two) \<and> \<not> active one_of_two ! Suc 0 \<and>
   active one_of_two ! 0 \<and>
   Activate one_of_two 8 \<lparr>X = 5, Y = 0\<rparr> \<lparr>X = 0, Y = 0\<rparr> 0 0 1 1 0 = Inr full_two \<and>
   length (particles full_two) = 2 \<and> active full_two ! 0 \<and> active full_two ! Suc 0 \<and>
   Activate full_two 9 \<lparr>X = 0, Y = 0\<rparr> \<lparr>X = 1, Y = 0\<rparr> 0 0 1 1 3 =
     Inr (full_two\<lparr>active := [True, True, True], lifetimes := [7, 8, 9], sprites := [3, 0, 3],
                   particles := [Some pushed, Some resting, Some pushed]\<rparr>) \<and>
   (\<exists>p1 p2. Deactivate full_two 0 = Inr (p1, True) \<and>
      Activate p1 9 \<lparr>X = 0, Y = 0\<rparr> \<lparr>X = 1, Y = 0\<rparr> 0 0 1 1 3 = Inr p2 \<and>
      active p2 ! 0 \<and> particles p2 ! 0 = Some pushed \<and> length (particles p2) = 2)"
proof -
  have l1: "length (active one_of_two) = length (particles one_of_two)"
      "length (lifetimes one_of_two) = length (particles one_of_two)"
      "length (sprites one_of_two) = length (particles one_of_two)"
    by (simp_all add: one_of_two_def)
  have l2: "length (active full_two) = length (particles full_two)"
      "length (lifetimes full_two) = length (particles full_two)"
      "length (sprites full_two) = length (particles full_two)"
    by (simp_all add: full_two_def)
  note a = Activate_slot_policy [OF l1, of 8 "\<lparr>X = 5, Y = 0\<rparr>" "\<lparr>X = 0, Y = 0\<rparr>" 0 0 1 1 0]
  note b = Activate_slot_policy [OF l2, of 9 "\<lparr>X = 0, Y = 0\<rparr>" "\<lparr>X = 1, Y = 0\<rparr>" 0 0 1 1 3]
  have one: "Suc 0 < length (particles one_of_two)" "\<not> active one_of_two ! Suc 0"
      "\<forall>j < Suc 0. active one_of_two ! j"
    by (simp_all add: one_of_two_def)
  have full: "\<forall>j < length (particles full_two). active full_two ! j"
    by (simp add: full_two_def less_two)
  from a one have "Activate one_of_two 8 \<lparr>X = 5, Y = 0\<rparr> \<lparr>X = 0, Y = 0\<rparr> 0 0 1 1 0 =
      Inr (one_of_two\<lparr>active := (active one_of_two)[Suc 0 := True],
             lifetimes := (lifetimes one_of_two)[Suc 0 := 8],
             sprites := (sprites one_of_two)[Suc 0 := 0],
             particles := (particles one_of_two)[Suc 0 := Some (newParticle \<lparr>X = 5, Y = 0\<rparr> \<lparr>X = 0, Y = 0\<rparr> 0 0 1 1)]\<rparr>)"
    by blast
  then have r1: "Activate one_of_two 8 \<lparr>X = 5, Y = 0\<rparr> \<lparr>X = 0, Y = 0\<rparr> 0 0 1 1 0 = Inr full_two"
    by (simp add: one_of_two_def full_two_def resting_def)
  from b full have "Activate full_two 9 \<lparr>X = 0, Y = 0\<rparr> \<lparr>X = 1, Y = 0\<rparr> 0 0 1 1 3 =
          Inr (full_two\<lparr>active := active full_two @ [True], lifetimes := lifetimes full_two @ [9],
                 sprites := sprites full_two @ [3],
                 particles := particles full_two @ [Some (newParticle \<lparr>X = 0, Y = 0\<rparr> \<lparr>X = 1, Y = 0\<rparr> 0 0 1 1)]\<rparr>)"
    by blast
  then have r2: "Activate full_two 9 \<lparr>X = 0, Y = 0\<rparr> \<lparr>X = 1, Y = 0\<rparr> 0 0 1 1 3 =
     Inr (full_two\<lparr>active := [True, True, True], lifetimes := [7, 8, 9], sprites := [3, 0, 3],
                   particles := [Some pushed, Some resting, Some pushed]\<rparr>)"
    by (simp add: full_two_def pushed_def)
  have "0 < length (particles full_two)" by (simp add: full_two_def)
  with b full have "\<exists>p1 p2. Deactivate full_two 0 = Inr (p1, True) \<and>
           Activate p1 9 \<lparr>X = 0, Y = 0\<rparr> \<lparr>X = 1, Y = 0\<rparr> 0 0 1 1 3 = Inr p2 \<and>
           active p2 ! 0 \<and>
           particles p2 ! 0 = Some (newParticle \<lparr>X = 0, Y = 0\<rparr> \<lparr>X = 1, Y = 0\<rparr> 0 0 1 1) \<and>
           length (particles p2) = length (particles full_two) \<and>
           (\<forall>j < length (particles full_two). j \<noteq> 0 \<longrightarrow>
              active p2 ! j \<and> particles p2 ! j = particles full_two ! j)"
    by blast
  then obtain p1 p2 where p12: "Deactivate full_two 0 = Inr (p1, True)"
      "Activate p1 9 \<lparr>X = 0, Y = 0\<rparr> \<lparr>X = 1, Y = 0\<rparr> 0 0 1 1 3 = Inr p2" "active p2 ! 0"
      "particles p2 ! 0 = Some (newParticle \<lparr>X = 0, Y = 0\<rparr> \<lparr>X = 1, Y = 0\<rparr> 0 0 1 1)"
      "length (particles p2) = length (particles full_two)"
    by blast
  from p12(4,5) have "particles p2 ! 0 = Some pushed" "length (particles p2) = 2"
    by (simp_all add: pushed_def full_two_def)
  with p12(1-3) have r3: "\<exists>p1 p2. Deactivate full_two 0 = Inr (p1, True) \<and>
      Activate p1 9 \<lparr>X = 0, Y = 0\<rparr> \<lparr>X = 1, Y = 0\<rparr> 0 0 1 1 3 = Inr p2 \<and>
      active p2 ! 0 \<and> particles p2 ! 0 = Some pushed \<and> length (particles p2) = 2"
    by blast
  have shown: "active one_of_two ! 0" "length (particles full_two) = 2" "active full_two ! 0"
      "active full_two ! Suc 0"
    by (simp_all add: one_of_two_def full_two_def)
  from l1 l2 one(1,2) shown r1 r2 r3 show ?thesis
    by (intro conjI)
qed

text \<open>
  C8. For an index \<open>i\<close> inside the slices, \<open>Deactivate\<close> on an active slot returns
  true and the pool with slot \<open>i\<close> inactive and its particle pointer nil; on an
  inactive slot it returns false and the pool as it was. It does not panic.
\<close>

theorem Deactivate_result:
  "i < length (active p) \<Longrightarrow> i < length (particles p) \<Longrightarrow>
     (active p ! i \<longrightarrow>
        Deactivate p i =
          Inr (p\<lparr>active := (active p)[i := False], particles := (particles p)[i := None]\<rparr>, True) \<and>
        \<not> (active p)[i := False] ! i \<and> (particles p)[i := None] ! i = None) \<and>
     (\<not> active p ! i \<longrightarrow> Deactivate p i = Inr (p, False))"
  by (simp add: Deactivate_def)

text \<open>Witness: \<open>one_of_two\<close>, whose slot 0 is active and whose slot 1 is not.\<close>

theorem Deactivate_result_witness:
  "0 < length (active one_of_two) \<and> 0 < length (particles one_of_two) \<and>
   active one_of_two ! 0 \<and>
   Deactivate one_of_two 0 =
     Inr (one_of_two\<lparr>active := [False, False], particles := [None, None]\<rparr>, True) \<and>
   Suc 0 < length (active one_of_two) \<and> Suc 0 < length (particles one_of_two) \<and>
   \<not> active one_of_two ! Suc 0 \<and>
   Deactivate one_of_two (Suc 0) = Inr (one_of_two, False)"
proof -
  have r: "0 < length (active one_of_two)" "0 < length (particles one_of_two)"
      "Suc 0 < length (active one_of_two)" "Suc 0 < length (particles one_of_two)"
      "active one_of_two ! 0" "\<not> active one_of_two ! Suc 0"
    by (simp_all add: one_of_two_def)
  from Deactivate_result [OF r(1,2)] r(5)
  have "Deactivate one_of_two 0 =
          Inr (one_of_two\<lparr>active := (active one_of_two)[0 := False],
                           particles := (particles one_of_two)[0 := None]\<rparr>, True)"
    by blast
  then have a: "Deactivate one_of_two 0 =
     Inr (one_of_two\<lparr>active := [False, False], particles := [None, None]\<rparr>, True)"
    by (simp add: one_of_two_def)
  from Deactivate_result [OF r(3,4)] r(6)
  have b: "Deactivate one_of_two (Suc 0) = Inr (one_of_two, False)"
    by blast
  from r a b show ?thesis by blast
qed

section \<open>The update of a pool\<close>

lemma selectActive_spec:
  assumes "distinct is" "\<forall>i \<in> set is. i < length (particles p)"
    "length (active p) = length (particles p)" "length (lifetimes p) = length (particles p)"
  shows "\<exists>p'. selectActive now is p acc =
            Inr (p', acc @ filter (\<lambda>i. active p ! i \<and> \<not> expired p now i) is) \<and>
          same_config p' p \<and>
          length (active p') = length (particles p) \<and>
          length (particles p') = length (particles p) \<and>
          (\<forall>k < length (particles p).
             active p' ! k = (active p ! k \<and> \<not> (k \<in> set is \<and> expired p now k)) \<and>
             particles p' ! k = (if k \<in> set is \<and> expired p now k then None else particles p ! k))"
  using assms
proof (induction "is" arbitrary: p acc)
  case Nil
  then show ?case by (simp add: same_config_def)
next
  case (Cons i "is")
  have i: "i < length (particles p)" "i \<notin> set is" "distinct is"
    and rest: "\<forall>k \<in> set is. k < length (particles p)"
    using Cons.prems by auto
  show ?case
  proof (cases "expired p now i")
    case True
    define p1 where "p1 = p\<lparr>active := (active p)[i := False], particles := (particles p)[i := None]\<rparr>"
    have D: "Deactivate p i = Inr (p1, True)"
      using True i Cons.prems by (simp add: Deactivate_def expired_def p1_def)
    have step: "selectActive now (i # is) p acc = selectActive now is p1 acc"
      using True i Cons.prems D by (simp add: expired_def)
    have same: "active p1 ! k = active p ! k \<and> expired p1 now k = expired p now k"
      if "k \<in> set is" for k
    proof -
      from that i have "i \<noteq> k" by auto
      then show ?thesis by (simp add: p1_def expired_def)
    qed
    have filt: "filter (\<lambda>k. active p1 ! k \<and> \<not> expired p1 now k) is =
                filter (\<lambda>k. active p ! k \<and> \<not> expired p now k) is"
      by (rule filter_cong) (auto simp: same)
    from Cons.IH [of p1 acc] i rest Cons.prems
    obtain p' where p': "selectActive now is p1 acc =
            Inr (p', acc @ filter (\<lambda>i. active p1 ! i \<and> \<not> expired p1 now i) is)"
          "same_config p' p1"
          "length (active p') = length (particles p1)"
          "length (particles p') = length (particles p1)"
          "\<forall>k < length (particles p1).
             active p' ! k = (active p1 ! k \<and> \<not> (k \<in> set is \<and> expired p1 now k)) \<and>
             particles p' ! k = (if k \<in> set is \<and> expired p1 now k then None else particles p1 ! k)"
      by (auto simp: p1_def)
    have elem: "\<forall>k < length (particles p).
             active p' ! k = (active p ! k \<and> \<not> (k \<in> set (i # is) \<and> expired p now k)) \<and>
             particles p' ! k = (if k \<in> set (i # is) \<and> expired p now k then None else particles p ! k)"
    proof (intro allI impI)
      fix k assume k: "k < length (particles p)"
      show "active p' ! k = (active p ! k \<and> \<not> (k \<in> set (i # is) \<and> expired p now k)) \<and>
             particles p' ! k = (if k \<in> set (i # is) \<and> expired p now k then None else particles p ! k)"
      proof (cases "k = i")
        case True
        with p'(5) k i \<open>expired p now i\<close> Cons.prems show ?thesis
          by (simp add: p1_def)
      next
        case False
        have "k \<in> set is \<Longrightarrow> expired p1 now k = expired p now k"
          using same by simp
        with False p'(5) k Cons.prems show ?thesis
          by (auto simp: p1_def)
      qed
    qed
    show ?thesis
      using step p'(1-4) elem True filt
      by (auto simp: same_config_def p1_def)
  next
    case False
    from Cons.IH [of p "if active p ! i then acc @ [i] else acc"] i rest Cons.prems
    obtain p' where p': "selectActive now is p (if active p ! i then acc @ [i] else acc) =
            Inr (p', (if active p ! i then acc @ [i] else acc) @ filter (\<lambda>i. active p ! i \<and> \<not> expired p now i) is)"
          "same_config p' p"
          "length (active p') = length (particles p)"
          "length (particles p') = length (particles p)"
          "\<forall>k < length (particles p).
             active p' ! k = (active p ! k \<and> \<not> (k \<in> set is \<and> expired p now k)) \<and>
             particles p' ! k = (if k \<in> set is \<and> expired p now k then None else particles p ! k)"
      by auto
    have step: "selectActive now (i # is) p acc =
        selectActive now is p (if active p ! i then acc @ [i] else acc)"
      using False i Cons.prems by (auto simp: expired_def)
    have elem: "\<forall>k < length (particles p).
             active p' ! k = (active p ! k \<and> \<not> (k \<in> set (i # is) \<and> expired p now k)) \<and>
             particles p' ! k = (if k \<in> set (i # is) \<and> expired p now k then None else particles p ! k)"
      using p'(5) False by auto
    show ?thesis
      using step p'(1-4) elem False by auto
  qed
qed


lemma length_UpdatePositions: "length (UpdatePositions ps frame c dt) = length ps"
  by (induction ps) auto

lemma length_solve_pair: "length (solve_pair frame c ij ps) = length ps"
  by (simp add: solve_pair_def Let_def)

lemma length_fold_solve_pair: "length (fold (solve_pair frame c) xs ps) = length ps"
  by (induction xs arbitrary: ps) (auto simp: length_solve_pair)

lemma length_SolveCollisions: "length (SolveCollisions ps frame c) = length ps"
  by (simp add: SolveCollisions_def length_fold_solve_pair)

lemma fold_store:
  assumes "distinct idxs" "\<forall>i \<in> set idxs. i < length xs" "length qs = length idxs"
  shows "length (fold (\<lambda>iq xs. xs[fst iq := Some (snd iq)]) (zip idxs qs) xs) = length xs \<and>
         map (\<lambda>i. fold (\<lambda>iq xs. xs[fst iq := Some (snd iq)]) (zip idxs qs) xs ! i) idxs = map Some qs \<and>
         (\<forall>k. k \<notin> set idxs \<longrightarrow> fold (\<lambda>iq xs. xs[fst iq := Some (snd iq)]) (zip idxs qs) xs ! k = xs ! k)"
  using assms
proof (induction idxs arbitrary: qs xs)
  case Nil
  then show ?case by simp
next
  case (Cons i idxs)
  then obtain q qs' where qs: "qs = q # qs'" by (cases qs) auto
  let ?f = "\<lambda>iq xs. xs[fst iq := Some (snd iq)]"
  let ?xs1 = "xs[i := Some q]"
  have IH: "length (fold ?f (zip idxs qs') ?xs1) = length ?xs1 \<and>
         map (\<lambda>i. fold ?f (zip idxs qs') ?xs1 ! i) idxs = map Some qs' \<and>
         (\<forall>k. k \<notin> set idxs \<longrightarrow> fold ?f (zip idxs qs') ?xs1 ! k = ?xs1 ! k)"
    using Cons.prems qs by (intro Cons.IH) auto
  have "i \<notin> set idxs" "i < length xs" using Cons.prems by auto
  with IH have "fold ?f (zip idxs qs') ?xs1 ! i = Some q" by simp
  with IH show ?case by (simp add: qs)
qed

lemma writeBack_spec:
  assumes "distinct idxs" "\<forall>i \<in> set idxs. i < length (particles p)" "length qs = length idxs"
  shows "same_config (writeBack p idxs qs) p"
    "active (writeBack p idxs qs) = active p"
    "length (particles (writeBack p idxs qs)) = length (particles p)"
    "map (\<lambda>i. particles (writeBack p idxs qs) ! i) idxs = map Some qs"
    "\<forall>k. k \<notin> set idxs \<longrightarrow> particles (writeBack p idxs qs) ! k = particles p ! k"
  using fold_store [OF assms] by (simp_all add: writeBack_def same_config_def)

lemma select_all:
  assumes "pool_inv p"
  shows "\<exists>p1. selectActive now [0..<length (particles p)] p [] = Inr (p1, selected p now) \<and>
          same_config p1 p \<and>
          length (active p1) = length (particles p) \<and>
          length (particles p1) = length (particles p) \<and>
          (\<forall>k < length (particles p).
             active p1 ! k = (active p ! k \<and> \<not> expired p now k) \<and>
             particles p1 ! k = (if expired p now k then None else particles p ! k)) \<and>
          None \<notin> set (deref p1 (selected p now)) \<and>
          map the (deref p1 (selected p now)) = map (\<lambda>i. the (particles p ! i)) (selected p now)"
proof -
  from assms have len: "length (active p) = length (particles p)"
      "length (lifetimes p) = length (particles p)"
    by (auto simp: pool_inv_def)
  have "distinct [0..<length (particles p)]" "\<forall>i \<in> set [0..<length (particles p)]. i < length (particles p)"
    by auto
  from selectActive_spec [OF this len, of now "[]"]
  obtain p1 where p1: "selectActive now [0..<length (particles p)] p [] = Inr (p1, selected p now)"
      "same_config p1 p" "length (active p1) = length (particles p)"
      "length (particles p1) = length (particles p)"
      "\<forall>k < length (particles p).
             active p1 ! k = (active p ! k \<and> \<not> expired p now k) \<and>
             particles p1 ! k = (if expired p now k then None else particles p ! k)"
    by (auto simp: selected_def)
  have sel: "particles p1 ! i = particles p ! i \<and> particles p ! i \<noteq> None"
    if "i \<in> set (selected p now)" for i
    using that p1(5) assms by (auto simp: selected_def pool_inv_def)
  have "None \<notin> set (deref p1 (selected p now))"
    using sel by (fastforce simp: deref_def)
  moreover have "map the (deref p1 (selected p now)) = map (\<lambda>i. the (particles p ! i)) (selected p now)"
    using sel by (auto simp: deref_def)
  ultimately show ?thesis using p1 by blast
qed

lemma selected_props: "distinct (selected p now)" "\<forall>i \<in> set (selected p now). i < length (particles p)"
  by (auto simp: selected_def)

lemma Pool_Update_spec:
  assumes "pool_inv p"
  shows "\<exists>p'. Pool_Update p now frame c dt = Inr p' \<and>
          same_config p' p \<and>
          length (active p') = length (particles p) \<and>
          length (particles p') = length (particles p) \<and>
          (\<forall>k < length (particles p). active p' ! k = (active p ! k \<and> \<not> expired p now k)) \<and>
          (\<forall>k < length (particles p). k \<notin> set (selected p now) \<longrightarrow>
             particles p' ! k = (if expired p now k then None else particles p ! k)) \<and>
          map (\<lambda>i. particles p' ! i) (selected p now) =
            map Some (physics p frame c dt (map (\<lambda>i. the (particles p ! i)) (selected p now)))"
proof -
  from select_all [OF assms, of now] obtain p1 where
    p1: "selectActive now [0..<length (particles p)] p [] = Inr (p1, selected p now)"
      "same_config p1 p" "length (active p1) = length (particles p)"
      "length (particles p1) = length (particles p)"
      "\<forall>k < length (particles p).
             active p1 ! k = (active p ! k \<and> \<not> expired p now k) \<and>
             particles p1 ! k = (if expired p now k then None else particles p ! k)"
      "None \<notin> set (deref p1 (selected p now))"
      "map the (deref p1 (selected p now)) = map (\<lambda>i. the (particles p ! i)) (selected p now)"
    by blast
  let ?sel = "selected p now"
  let ?qs = "physics p frame c dt (map (\<lambda>i. the (particles p ! i)) ?sel)"
  have dc: "disableCollision p1 = disableCollision p" using p1(2) by (simp add: same_config_def)
  have res: "Pool_Update p now frame c dt = Inr (writeBack p1 ?sel ?qs)"
    using p1(1,6,7) dc by (simp add: Pool_Update_def Let_def physics_def)
  have lq: "length ?qs = length ?sel"
    by (simp add: physics_def length_SolveCollisions length_UpdatePositions)
  have in_range: "\<forall>i \<in> set ?sel. i < length (particles p1)"
    using selected_props(2) [of p now] p1(4) by simp
  note wb = writeBack_spec [OF selected_props(1) in_range lq]
  show ?thesis
    using res wb p1(2-5)
    by (intro exI [of _ "writeBack p1 ?sel ?qs"]) (auto simp: same_config_def)
qed

lemma map_Some_not_None: "map f xs = map Some qs \<Longrightarrow> x \<in> set xs \<Longrightarrow> f x \<noteq> None"
proof -
  assume eq: "map f xs = map Some qs" and x: "x \<in> set xs"
  from x have "f x \<in> set (map f xs)" by simp
  with eq have "f x \<in> set (map Some qs)" by simp
  then show ?thesis by auto
qed

lemma pool_inv_after_update:
  assumes inv: "pool_inv p"
    and cfg: "same_config p' p"
    and la: "length (active p') = length (particles p)"
    and lp: "length (particles p') = length (particles p)"
    and act: "\<forall>k < length (particles p). active p' ! k = (active p ! k \<and> \<not> expired p now k)"
    and sel: "map (\<lambda>i. particles p' ! i) (selected p now) = map Some qs"
  shows "pool_inv p'"
proof -
  have "particles p' ! k \<noteq> None" if "k < length (particles p')" "active p' ! k" for k
  proof -
    from that act lp have "active p ! k \<and> \<not> expired p now k" by simp
    with that lp have "k \<in> set (selected p now)" by (simp add: selected_def)
    from map_Some_not_None [OF sel this] show ?thesis .
  qed
  with inv cfg la lp show ?thesis
    by (simp add: pool_inv_def same_config_def)
qed

lemma Pool_Update_inv:
  assumes "pool_inv p"
  shows "\<exists>p'. Pool_Update p now frame c dt = Inr p' \<and> pool_inv p' \<and>
           length (particles p') = length (particles p)"
proof -
  from Pool_Update_spec [OF assms, of now frame c dt] obtain p' where
    p': "Pool_Update p now frame c dt = Inr p'" "same_config p' p"
      "length (active p') = length (particles p)" "length (particles p') = length (particles p)"
      "\<forall>k < length (particles p). active p' ! k = (active p ! k \<and> \<not> expired p now k)"
      "map (\<lambda>i. particles p' ! i) (selected p now) =
         map Some (physics p frame c dt (map (\<lambda>i. the (particles p ! i)) (selected p now)))"
    by blast
  from pool_inv_after_update [OF assms p'(2-6)] p'(1,4) show ?thesis by blast
qed

lemma length_with_external:
  "length (with_external p frame c dt ps external) = length ps + length external"
  by (simp add: with_external_def length_SolveCollisions length_UpdatePositions)

lemma Pool_UpdateWith_spec:
  assumes "pool_inv p"
    and ext: "disableCollision p \<or> None \<notin> set external \<or>
              length (selected p now) + length external < 2"
  shows "\<exists>p' ext'. Pool_UpdateWith p now frame c dt external = Inr (p', ext') \<and>
          same_config p' p \<and>
          length (active p') = length (particles p) \<and>
          length (particles p') = length (particles p) \<and>
          (\<forall>k < length (particles p). active p' ! k = (active p ! k \<and> \<not> expired p now k)) \<and>
          (\<forall>k < length (particles p). k \<notin> set (selected p now) \<longrightarrow>
             particles p' ! k = (if expired p now k then None else particles p ! k)) \<and>
          map (\<lambda>i. particles p' ! i) (selected p now) =
            map Some (take (length (selected p now))
              (with_external p frame c dt (map (\<lambda>i. the (particles p ! i)) (selected p now))
                 (map the external))) \<and>
          (disableCollision p \<longrightarrow> ext' = external) \<and>
          (\<not> disableCollision p \<longrightarrow> ext' = map Some (drop (length (selected p now))
              (with_external p frame c dt (map (\<lambda>i. the (particles p ! i)) (selected p now))
                 (map the external))))"
proof -
  from select_all [OF assms(1), of now] obtain p1 where
    p1: "selectActive now [0..<length (particles p)] p [] = Inr (p1, selected p now)"
      "same_config p1 p" "length (active p1) = length (particles p)"
      "length (particles p1) = length (particles p)"
      "\<forall>k < length (particles p).
             active p1 ! k = (active p ! k \<and> \<not> expired p now k) \<and>
             particles p1 ! k = (if expired p now k then None else particles p ! k)"
      "None \<notin> set (deref p1 (selected p now))"
      "map the (deref p1 (selected p now)) = map (\<lambda>i. the (particles p ! i)) (selected p now)"
    by blast
  let ?sel = "selected p now"
  let ?ps = "map (\<lambda>i. the (particles p ! i)) ?sel"
  let ?all = "with_external p frame c dt ?ps (map the external)"
  let ?qs = "take (length ?sel) ?all"
  let ?ext = "if disableCollision p then external else map Some (drop (length ?sel) ?all)"
  have dc: "disableCollision p1 = disableCollision p" using p1(2) by (simp add: same_config_def)
  have take_dis: "disableCollision p \<Longrightarrow> ?qs = UpdatePositions ?ps frame c dt"
    by (simp add: with_external_def length_UpdatePositions)
  have res: "Pool_UpdateWith p now frame c dt external = Inr (writeBack p1 ?sel ?qs, ?ext)"
  proof (cases "disableCollision p")
    case True
    then show ?thesis
      using p1(1,6,7) dc take_dis by (simp add: Pool_UpdateWith_def Let_def)
  next
    case False
    with ext have "\<not> (2 \<le> length ?sel + length external \<and> None \<in> set external)" by auto
    then show ?thesis
      using False p1(1,6,7) dc
      by (simp add: Pool_UpdateWith_def Let_def with_external_def length_UpdatePositions)
  qed
  have lq: "length ?qs = length ?sel"
    by (simp add: length_with_external)
  have in_range: "\<forall>i \<in> set ?sel. i < length (particles p1)"
    using selected_props(2) [of p now] p1(4) by simp
  note wb = writeBack_spec [OF selected_props(1) in_range lq]
  show ?thesis
    using res wb p1(2-5)
    by (intro exI [of _ "writeBack p1 ?sel ?qs"] exI [of _ ?ext]) (auto simp: same_config_def)
qed

lemma Pool_UpdateWith_inv:
  assumes "pool_inv p" "Pool_UpdateWith p now frame c dt external = Inr r"
  shows "pool_inv (fst r)"
proof -
  let ?sel = "selected p now"
  have "disableCollision p \<or> None \<notin> set external \<or> length ?sel + length external < 2"
  proof (rule ccontr)
    assume neg: "\<not> (disableCollision p \<or> None \<notin> set external \<or> length ?sel + length external < 2)"
    from select_all [OF assms(1), of now] obtain p1 where
      p1: "selectActive now [0..<length (particles p)] p [] = Inr (p1, selected p now)"
        "same_config p1 p"
        "None \<notin> set (deref p1 (selected p now))"
      by blast
    have "Pool_UpdateWith p now frame c dt external = Inl NilDereference"
      using neg p1 by (simp add: Pool_UpdateWith_def Let_def same_config_def length_UpdatePositions deref_def)
    with assms(2) show False by simp
  qed
  from Pool_UpdateWith_spec [OF assms(1) this, of frame c dt] assms(2)
  obtain p' ext' where
    p': "r = (p', ext')" "same_config p' p"
      "length (active p') = length (particles p)" "length (particles p') = length (particles p)"
      "\<forall>k < length (particles p). active p' ! k = (active p ! k \<and> \<not> expired p now k)"
      "map (\<lambda>i. particles p' ! i) (selected p now) =
            map Some (take (length (selected p now))
              (with_external p frame c dt (map (\<lambda>i. the (particles p ! i)) (selected p now))
                 (map the external)))"
    by auto
  from pool_inv_after_update [OF assms(1) p'(2-6)] p'(1) show ?thesis by simp
qed

lemma Reset_loop_inv:
  assumes "pool_inv p" "\<forall>i \<in> set is. i < length (particles p)"
  shows "\<exists>p'. Reset_loop is p = Inr p' \<and> pool_inv p' \<and> length (particles p') = length (particles p)"
  using assms
proof (induction "is" arbitrary: p)
  case Nil
  then show ?case by simp
next
  case (Cons i "is")
  let ?p1 = "p\<lparr>particles := (particles p)[i := None], active := (active p)[i := False],
                   lifetimes := (lifetimes p)[i := zeroTime], sprites := (sprites p)[i := 0]\<rparr>"
  have inv1: "pool_inv ?p1"
    using Cons.prems by (auto simp: pool_inv_def nth_list_update)
  have r1: "\<forall>k \<in> set is. k < length (particles ?p1)"
    using Cons.prems by simp
  from Cons.IH [OF inv1 r1] Cons.IH [OF Cons.prems(1)] Cons.prems
  show ?case
    by (auto simp: pool_inv_def)
qed

lemma Reset_inv:
  assumes "pool_inv p"
  shows "\<exists>p'. Reset p = Inr p' \<and> pool_inv p'"
  using Reset_loop_inv [OF assms, of "[0..<length (particles p)]"] by (auto simp: Reset_def)

lemma NewPool_inv: "pool_inv (NewPool n)"
  by (simp add: pool_inv_def NewPool_def)

lemma apply_op_inv:
  assumes "pool_inv p" "apply_op x p = Inr p'"
  shows "pool_inv p'"
proof (cases x)
  case (OpActivate now pos rap angPos angVel mass radius sprite)
  with assms Activate_inv [OF assms(1), of now pos rap angPos angVel mass radius sprite]
  show ?thesis by auto
next
  case (OpDeactivate i)
  with assms obtain r where "Deactivate p i = Inr r" "p' = fst r"
    by (cases "Deactivate p i") auto
  with Deactivate_inv [OF assms(1)] show ?thesis by simp
next
  case (OpUpdate now frame c dt)
  with assms Pool_Update_inv [OF assms(1), of now frame c dt] show ?thesis by auto
next
  case (OpUpdateWith now frame c dt external)
  with assms obtain r where "Pool_UpdateWith p now frame c dt external = Inr r" "p' = fst r"
    by (cases "Pool_UpdateWith p now frame c dt external") auto
  with Pool_UpdateWith_inv [OF assms(1)] show ?thesis by simp
next
  case OpReset
  with assms Reset_inv [OF assms(1)] show ?thesis by auto
next
  case OpDisableCollision
  with assms show ?thesis by (auto simp: pool_inv_def DisableCollision_def)
next
  case (OpEnforceLifetime lifetime)
  with assms show ?thesis by (auto simp: pool_inv_def EnforceLifetime_def)
next
  case OpFadeOverLifetime
  with assms show ?thesis by (auto simp: pool_inv_def FadeOverLifetime_def)
qed

lemma run_inv: "pool_inv p \<Longrightarrow> run ops p = Inr p' \<Longrightarrow> pool_inv p'"
proof (induction ops arbitrary: p)
  case Nil
  then show ?case by simp
next
  case (Cons x ops)
  then show ?case
    by (auto split: sum.splits dest: apply_op_inv)
qed

lemma EnforceLifetime_fields:
  "particles (EnforceLifetime p T) = particles p" "active (EnforceLifetime p T) = active p"
  "lifetimes (EnforceLifetime p T) = lifetimes p" "sprites (EnforceLifetime p T) = sprites p"
  "disableCollision (EnforceLifetime p T) = disableCollision p"
  "enforceLifetime (EnforceLifetime p T)" "maxLifetime (EnforceLifetime p T) = T"
  by (simp_all add: EnforceLifetime_def)

lemma EnforceLifetime_inv: "pool_inv p \<Longrightarrow> pool_inv (EnforceLifetime p T)"
  by (simp add: pool_inv_def EnforceLifetime_def)

lemma expired_EnforceLifetime:
  "expired (EnforceLifetime p T) now i \<longleftrightarrow> active p ! i \<and> T < Since (now i) (lifetimes p ! i)"
  by (simp add: expired_def EnforceLifetime_def)

lemma selected_EnforceLifetime:
  "selected (EnforceLifetime p T) now =
     filter (\<lambda>i. active p ! i \<and> \<not> T < Since (now i) (lifetimes p ! i)) [0..<length (particles p)]"
  unfolding selected_def expired_EnforceLifetime EnforceLifetime_fields
  by (rule filter_cong) auto

text \<open>
  C9. Let the pool \<open>p0\<close> satisfy the structural invariant and be configured with
  \<open>EnforceLifetime T\<close>; let \<open>sel\<close> be its active slots whose time since activation is
  at most \<open>T\<close>, in slot order. \<open>Update\<close> succeeds; every active slot whose time since
  activation exceeds \<open>T\<close> is inactive afterwards with a nil particle; every slot of
  \<open>sel\<close> stays active and holds the result of \<open>UpdatePositions\<close> on the particles of
  \<open>sel\<close>, followed by \<open>SolveCollisions\<close> on exactly these unless collisions are
  disabled. \<open>UpdateWith\<close> does the same, with the caller's particles appended for the
  collision pass only.
\<close>

theorem lifetime_expiry:
  assumes "pool_inv p0"
  shows
    "let P = EnforceLifetime p0 T;
         sel = filter (\<lambda>i. active p0 ! i \<and> \<not> T < Since (now i) (lifetimes p0 ! i))
                 [0..<length (particles p0)];
         moved = UpdatePositions (map (\<lambda>i. the (particles p0 ! i)) sel) frame c dt
     in (\<exists>p'. Pool_Update P now frame c dt = Inr p' \<and>
           (\<forall>i < length (particles p0).
              active p0 ! i \<and> T < Since (now i) (lifetimes p0 ! i) \<longrightarrow>
              \<not> active p' ! i \<and> particles p' ! i = None) \<and>
           (\<forall>i \<in> set sel. active p' ! i) \<and>
           map (\<lambda>i. particles p' ! i) sel =
             map Some (if disableCollision p0 then moved else SolveCollisions moved frame c)) \<and>
        (\<exists>p' ext'. Pool_UpdateWith P now frame c dt (map Some external) = Inr (p', ext') \<and>
           (\<forall>i < length (particles p0).
              active p0 ! i \<and> T < Since (now i) (lifetimes p0 ! i) \<longrightarrow>
              \<not> active p' ! i \<and> particles p' ! i = None) \<and>
           (\<forall>i \<in> set sel. active p' ! i) \<and>
           map (\<lambda>i. particles p' ! i) sel =
             map Some (if disableCollision p0 then moved
                       else take (length sel) (SolveCollisions (moved @ external) frame c)) \<and>
           ext' =
             map Some (if disableCollision p0 then external
                       else drop (length sel) (SolveCollisions (moved @ external) frame c)))"
proof -
  let ?P = "EnforceLifetime p0 T"
  let ?sel = "filter (\<lambda>i. active p0 ! i \<and> \<not> T < Since (now i) (lifetimes p0 ! i))
                 [0..<length (particles p0)]"
  let ?moved = "UpdatePositions (map (\<lambda>i. the (particles p0 ! i)) ?sel) frame c dt"
  have inv: "pool_inv ?P" by (rule EnforceLifetime_inv [OF assms])
  have sel: "selected ?P now = ?sel" by (rule selected_EnforceLifetime)
  have not_sel: "i \<notin> set ?sel" if "T < Since (now i) (lifetimes p0 ! i)" for i
    using that by auto
  from Pool_Update_spec [OF inv, of now frame c dt]
  obtain p' where p': "Pool_Update ?P now frame c dt = Inr p'"
      "same_config p' ?P" "length (active p') = length (particles ?P)"
      "length (particles p') = length (particles ?P)"
      "\<forall>k < length (particles ?P). active p' ! k = (active ?P ! k \<and> \<not> expired ?P now k)"
      "\<forall>k < length (particles ?P). k \<notin> set (selected ?P now) \<longrightarrow>
             particles p' ! k = (if expired ?P now k then None else particles ?P ! k)"
      "map (\<lambda>i. particles p' ! i) (selected ?P now) =
            map Some (physics ?P frame c dt (map (\<lambda>i. the (particles ?P ! i)) (selected ?P now)))"
    by (elim exE conjE) (rule that)
  have u1: "\<forall>i < length (particles p0).
              active p0 ! i \<and> T < Since (now i) (lifetimes p0 ! i) \<longrightarrow>
              \<not> active p' ! i \<and> particles p' ! i = None"
    using p'(5,6) not_sel
    by (simp add: sel EnforceLifetime_fields expired_EnforceLifetime)
  have u2: "\<forall>i \<in> set ?sel. active p' ! i"
  proof
    fix i
    assume "i \<in> set ?sel"
    then have "i < length (particles p0)" "active p0 ! i"
        "\<not> T < Since (now i) (lifetimes p0 ! i)"
      by auto
    with p'(5) show "active p' ! i"
      by (simp add: EnforceLifetime_fields expired_EnforceLifetime)
  qed
  have u3: "map (\<lambda>i. particles p' ! i) ?sel =
             map Some (if disableCollision p0 then ?moved else SolveCollisions ?moved frame c)"
    using p'(7) by (simp add: sel EnforceLifetime_fields physics_def)
  have noneq: "disableCollision ?P \<or> None \<notin> set (map Some external) \<or>
              length (selected ?P now) + length (map Some external) < 2"
    by auto
  from Pool_UpdateWith_spec [OF inv noneq, of frame c dt]
  obtain q' ext' where q': "Pool_UpdateWith ?P now frame c dt (map Some external) = Inr (q', ext')"
      "same_config q' ?P" "length (active q') = length (particles ?P)"
      "length (particles q') = length (particles ?P)"
      "\<forall>k < length (particles ?P). active q' ! k = (active ?P ! k \<and> \<not> expired ?P now k)"
      "\<forall>k < length (particles ?P). k \<notin> set (selected ?P now) \<longrightarrow>
             particles q' ! k = (if expired ?P now k then None else particles ?P ! k)"
      "map (\<lambda>i. particles q' ! i) (selected ?P now) =
            map Some (take (length (selected ?P now))
              (with_external ?P frame c dt (map (\<lambda>i. the (particles ?P ! i)) (selected ?P now))
                 (map the (map Some external))))"
      "disableCollision ?P \<longrightarrow> ext' = map Some external"
      "\<not> disableCollision ?P \<longrightarrow> ext' = map Some (drop (length (selected ?P now))
              (with_external ?P frame c dt (map (\<lambda>i. the (particles ?P ! i)) (selected ?P now))
                 (map the (map Some external))))"
    by (elim exE conjE) (rule that)
  have the_Some: "map the (map Some external) = external"
    by (simp add: comp_def)
  have w1: "\<forall>i < length (particles p0).
              active p0 ! i \<and> T < Since (now i) (lifetimes p0 ! i) \<longrightarrow>
              \<not> active q' ! i \<and> particles q' ! i = None"
    using q'(5,6) not_sel
    by (simp add: sel EnforceLifetime_fields expired_EnforceLifetime)
  have w2: "\<forall>i \<in> set ?sel. active q' ! i"
  proof
    fix i
    assume "i \<in> set ?sel"
    then have "i < length (particles p0)" "active p0 ! i"
        "\<not> T < Since (now i) (lifetimes p0 ! i)"
      by auto
    with q'(5) show "active q' ! i"
      by (simp add: EnforceLifetime_fields expired_EnforceLifetime)
  qed
  have lm: "length ?moved = length ?sel"
    by (simp add: length_UpdatePositions)
  have w3: "map (\<lambda>i. particles q' ! i) ?sel =
             map Some (if disableCollision p0 then ?moved
                       else take (length ?sel) (SolveCollisions (?moved @ external) frame c))"
    using q'(7) lm unfolding the_Some sel
    by (simp add: EnforceLifetime_fields with_external_def)
  have w4: "ext' = map Some (if disableCollision p0 then external
                       else drop (length ?sel) (SolveCollisions (?moved @ external) frame c))"
    using q'(8,9) lm unfolding the_Some sel
    by (simp add: EnforceLifetime_fields with_external_def)
  from p'(1) u1 u2 u3 q'(1) w1 w2 w3 w4 show ?thesis
    unfolding Let_def by blast
qed

lemma pairs_one: "pairs (Suc 0) = []"
  by (simp add: pairs_def)

lemma SolveCollisions_one: "SolveCollisions [a] frame c = [a]"
  by (simp add: SolveCollisions_def pairs_one)

lemma session_step1: "EnforceLifetime (NewPool 1) 10 = session_1"
  by (simp add: NewPool_def EnforceLifetime_def session_1_def zeroTime_def)

lemma session_step2: "Activate session_1 0 \<lparr>X = 0, Y = 0\<rparr> \<lparr>X = 1, Y = 0\<rparr> 0 0 1 1 3 = Inr session_2"
  by (simp add: Activate_def session_1_def session_2_def pushed_def)

lemma session_step3: "Activate session_2 5 \<lparr>X = 5, Y = 0\<rparr> \<lparr>X = 0, Y = 0\<rparr> 0 0 1 1 0 = Inr session_3"
  by (simp add: Activate_def session_2_def session_3_def resting_def appendNew_def)

lemma session_select: "selectActive (\<lambda>i. 12) [0, Suc 0] session_3 [] =
    Inr (session_3\<lparr>active := [False, True], particles := [None, Some resting]\<rparr>, [Suc 0])"
  by (simp add: session_3_def Since_def Deactivate_def)

lemma session_step4: "Pool_Update session_3 (\<lambda>i. 12) \<lparr>X = 0, Y = 0\<rparr> 1 1 = Inr after_session"
proof -
  have "length (particles session_3) = 2" by (simp add: session_3_def)
  then have "Pool_Update session_3 (\<lambda>i. 12) \<lparr>X = 0, Y = 0\<rparr> 1 1 =
      (case Inr (session_3\<lparr>active := [False, True], particles := [None, Some resting]\<rparr>, [Suc 0]) of
        Inl e \<Rightarrow> Inl e
      | Inr r \<Rightarrow>
          (let p1 = fst r; idxs = snd r in
           if None \<in> set (deref p1 idxs) then Inl NilDereference
           else
             (let activeParticles = map the (deref p1 idxs);
                  activeParticles = UpdatePositions activeParticles \<lparr>X = 0, Y = 0\<rparr> 1 1;
                  activeParticles =
                    (if \<not> disableCollision p1
                     then SolveCollisions activeParticles \<lparr>X = 0, Y = 0\<rparr> 1
                     else activeParticles)
              in Inr (writeBack p1 idxs activeParticles))))"
    by (simp only: Pool_Update_def upt_two session_select)
  also have "\<dots> = Inr after_session"
    by (simp add: deref_def writeBack_def SolveCollisions_one Let_def session_3_def after_session_def)
  finally show ?thesis .
qed

lemma session_step5: "Deactivate after_session 0 = Inr (after_session, False)"
  by (simp add: Deactivate_def after_session_def)

lemma run_session: "run session (NewPool 1) = Inr after_session"
  by (simp add: session_def session_step1 session_step2 session_step3 session_step4 session_step5 del: One_nat_def)

lemma full_two_sel:
  "filter (\<lambda>i. active full_two ! i \<and> \<not> 10 < Since (18 :: int) (lifetimes full_two ! i))
     [0..<length (particles full_two)] = [Suc 0]"
  by (simp add: full_two_def upt_two Since_def)

lemma full_two_fields:
  "length (particles full_two) = Suc (Suc 0)" "active full_two ! 0" "active full_two ! Suc 0"
  "(10 :: int) < Since 18 (lifetimes full_two ! 0)" "the (particles full_two ! Suc 0) = resting"
  "\<not> disableCollision full_two" "\<not> (10 :: int) < Since 18 (lifetimes full_two ! Suc 0)"
  by (simp_all add: full_two_def Since_def)

text \<open>
  Witness: \<open>full_two\<close> (activated at 7 and 8) with lifetime 10, updated when the clock
  reads 18: slot 0 (age 11) expires, slot 1 (age 10) is kept and moved.
\<close>

theorem lifetime_expiry_witness:
  "pool_inv full_two \<and>
   (\<exists>p'. Pool_Update (EnforceLifetime full_two 10) (\<lambda>i. 18) \<lparr>X = 0, Y = 0\<rparr> 1 1 = Inr p' \<and>
      \<not> active p' ! 0 \<and> particles p' ! 0 = None \<and> active p' ! Suc 0 \<and>
      [particles p' ! Suc 0] =
        map Some (SolveCollisions [Update resting \<lparr>X = 0, Y = 0\<rparr> \<lparr>X = 0, Y = 0\<rparr> 1 1]
                    \<lparr>X = 0, Y = 0\<rparr> 1)) \<and>
   (\<exists>p' ext'. Pool_UpdateWith (EnforceLifetime full_two 10) (\<lambda>i. 18) \<lparr>X = 0, Y = 0\<rparr> 1 1
        [Some pushed] = Inr (p', ext') \<and>
      \<not> active p' ! 0 \<and> particles p' ! 0 = None \<and> active p' ! Suc 0 \<and>
      [particles p' ! Suc 0] =
        map Some (take (Suc 0)
          (SolveCollisions [Update resting \<lparr>X = 0, Y = 0\<rparr> \<lparr>X = 0, Y = 0\<rparr> 1 1, pushed]
             \<lparr>X = 0, Y = 0\<rparr> 1)) \<and>
      ext' =
        map Some (drop (Suc 0)
          (SolveCollisions [Update resting \<lparr>X = 0, Y = 0\<rparr> \<lparr>X = 0, Y = 0\<rparr> 1 1, pushed]
             \<lparr>X = 0, Y = 0\<rparr> 1)))"
  using lifetime_expiry [OF full_two_inv, of 10 "\<lambda>i. 18" "\<lparr>X = 0, Y = 0\<rparr>" 1 1 "[pushed]"]
    full_two_inv
  unfolding Let_def full_two_sel
  by (simp add: full_two_fields less_two)

text \<open>
  In a pool that satisfies the invariant no call panics, except \<open>Deactivate\<close> with an
  index outside the pool and \<open>UpdateWith\<close> with a nil particle.
\<close>

lemma Deactivate_succeeds:
  assumes "pool_inv p" "i < length (particles p)"
  shows "\<exists>r. Deactivate p i = Inr r"
  using assms by (auto simp: Deactivate_def pool_inv_def)

lemma apply_op_succeeds:
  assumes "pool_inv p"
    and "\<And>i. x = OpDeactivate i \<Longrightarrow> i < length (particles p)"
    and "\<And>now frame c dt external. x = OpUpdateWith now frame c dt external \<Longrightarrow>
           None \<notin> set external"
  shows "\<exists>p'. apply_op x p = Inr p'"
proof (cases x)
  case (OpActivate now pos rap angPos angVel mass radius sprite)
  with Activate_inv [OF assms(1), of now pos rap angPos angVel mass radius sprite]
  show ?thesis by auto
next
  case (OpDeactivate i)
  with Deactivate_succeeds [OF assms(1), of i] assms(2) show ?thesis by auto
next
  case (OpUpdate now frame c dt)
  with Pool_Update_inv [OF assms(1), of now frame c dt] show ?thesis by auto
next
  case (OpUpdateWith now frame c dt external)
  with assms(3) have "disableCollision p \<or> None \<notin> set external \<or>
      length (selected p now) + length external < 2"
    by simp
  from Pool_UpdateWith_spec [OF assms(1) this, of frame c dt] OpUpdateWith
  show ?thesis by auto
next
  case OpReset
  with Reset_inv [OF assms(1)] show ?thesis by auto
qed simp_all

text \<open>
  C7. Every pool reached from \<open>NewPool n\<close> by a sequence of calls of \<open>Activate\<close>,
  \<open>Deactivate\<close>, \<open>Update\<close>, \<open>UpdateWith\<close>, \<open>Reset\<close> and the three configuration
  methods has its four slices of one length, and each of its active slots holds a
  particle.
\<close>

theorem pool_structural_invariant:
  "run ops (NewPool n) = Inr p \<Longrightarrow>
     length (active p) = length (particles p) \<and>
     length (lifetimes p) = length (particles p) \<and>
     length (sprites p) = length (particles p) \<and>
     (\<forall>i < length (particles p). active p ! i \<longrightarrow> particles p ! i \<noteq> None)"
  using run_inv [OF NewPool_inv, of ops n p] by (simp add: pool_inv_def)

text \<open>Witness: the session above, which ends in \<open>after_session\<close>.\<close>

theorem pool_structural_invariant_witness:
  "run session (NewPool 1) = Inr after_session \<and>
   length (active after_session) = length (particles after_session) \<and>
   length (lifetimes after_session) = length (particles after_session) \<and>
   length (sprites after_session) = length (particles after_session) \<and>
   Suc 0 < length (particles after_session) \<and> active after_session ! Suc 0 \<and>
   particles after_session ! Suc 0 \<noteq> None"
proof -
  have slot: "Suc 0 < length (particles after_session)" "active after_session ! Suc 0"
    by (simp_all add: after_session_def)
  with pool_structural_invariant [OF run_session]
  have "particles after_session ! Suc 0 \<noteq> None"
    by blast
  with pool_structural_invariant [OF run_session] run_session slot show ?thesis
    by (intro conjI) simp_all
qed

end
